theory Spec2Isabelle
  imports Main "HOL-Library.Word"
begin

unbundle bit_operations_syntax

section \<open>types.h\<close>

type_synonym u8_t = "8 word"
type_synonym u16_t = "16 word"
type_synonym u32_t = "32 word"
type_synonym s8_t = "8 word"

text \<open>Data and function pointers of the 32-bit target; \<open>NULL\<close> is address 0.\<close>

type_synonym ptr_t = "32 word"

datatype status_t =
    STATUS_OK
  | STATUS_ERROR
  | STATUS_BUSY
  | STATUS_TIMEOUT
  | STATUS_INVALID_PARAM
  | STATUS_NOT_READY

definition IS_NULL_PTR :: "ptr_t \<Rightarrow> bool" where
  "IS_NULL_PTR p = (p = 0)"

definition IS_VALID_PTR :: "ptr_t \<Rightarrow> bool" where
  "IS_VALID_PTR p = (p \<noteq> 0)"

definition BIT_CHECK :: "u32_t \<Rightarrow> nat \<Rightarrow> bool" where
  "BIT_CHECK reg b = (reg AND push_bit b 1 \<noteq> 0)"

section \<open>arm\_a7\_regs.h\<close>

definition PERIPH_BASE :: u32_t where "PERIPH_BASE = 0x40000000"
definition I2C0_BASE :: u32_t where "I2C0_BASE = PERIPH_BASE + 0x00005000"
definition I2C1_BASE :: u32_t where "I2C1_BASE = PERIPH_BASE + 0x00005400"
definition GIC_BASE :: u32_t where "GIC_BASE = 0x2C000000"
definition GIC_DIST_BASE :: u32_t where "GIC_DIST_BASE = GIC_BASE + 0x1000"
definition GIC_CPU_BASE :: u32_t where "GIC_CPU_BASE = GIC_BASE + 0x2000"

definition GICD_ISENABLER :: "u32_t \<Rightarrow> u32_t" where
  "GICD_ISENABLER n = GIC_DIST_BASE + 0x100 + n * 4"

definition GICD_ICENABLER :: "u32_t \<Rightarrow> u32_t" where
  "GICD_ICENABLER n = GIC_DIST_BASE + 0x180 + n * 4"

text \<open>Byte offsets of the fields of \<open>i2c_regs_t\<close> (nine consecutive 32-bit registers).\<close>

definition CR1 :: u32_t where "CR1 = 0"
definition CR2 :: u32_t where "CR2 = 4"
definition OAR1 :: u32_t where "OAR1 = 8"
definition OAR2 :: u32_t where "OAR2 = 12"
definition DR :: u32_t where "DR = 16"
definition SR1 :: u32_t where "SR1 = 20"
definition SR2 :: u32_t where "SR2 = 24"
definition CCR :: u32_t where "CCR = 28"
definition TRISE :: u32_t where "TRISE = 32"

definition I2C_CR1_PE :: nat where "I2C_CR1_PE = 0"
definition I2C_CR1_START :: nat where "I2C_CR1_START = 8"
definition I2C_CR1_STOP :: nat where "I2C_CR1_STOP = 9"
definition I2C_CR1_ACK :: nat where "I2C_CR1_ACK = 10"
definition I2C_CR1_SWRST :: nat where "I2C_CR1_SWRST = 15"

definition I2C_SR1_SB :: nat where "I2C_SR1_SB = 0"
definition I2C_SR1_ADDR :: nat where "I2C_SR1_ADDR = 1"
definition I2C_SR1_BTF :: nat where "I2C_SR1_BTF = 2"
definition I2C_SR1_RXNE :: nat where "I2C_SR1_RXNE = 6"
definition I2C_SR1_TXE :: nat where "I2C_SR1_TXE = 7"
definition I2C_SR1_AF :: nat where "I2C_SR1_AF = 10"

definition I2C_SR2_BUSY :: nat where "I2C_SR2_BUSY = 1"

definition IRQ_I2C0 :: u32_t where "IRQ_I2C0 = 23"
definition IRQ_I2C1 :: u32_t where "IRQ_I2C1 = 24"
definition IRQ_BLE :: u32_t where "IRQ_BLE = 48"

section \<open>ble\_driver.h and i2c\_driver.h\<close>

datatype ble_state_t =
    BLE_STATE_OFF
  | BLE_STATE_IDLE
  | BLE_STATE_ADVERTISING
  | BLE_STATE_SCANNING
  | BLE_STATE_CONNECTING
  | BLE_STATE_CONNECTED
  | BLE_STATE_DISCONNECTING
  | BLE_STATE_ERROR

datatype ble_event_type_t =
    BLE_EVT_NONE
  | BLE_EVT_CONNECTED
  | BLE_EVT_DISCONNECTED
  | BLE_EVT_DATA_RECEIVED
  | BLE_EVT_DATA_SENT
  | BLE_EVT_ADV_STARTED
  | BLE_EVT_ADV_STOPPED
  | BLE_EVT_SCAN_RESULT
  | BLE_EVT_ERROR

definition BLE_MAX_PAYLOAD_SIZE :: nat where "BLE_MAX_PAYLOAD_SIZE = 244"
definition BLE_MAC_ADDR_LEN :: nat where "BLE_MAC_ADDR_LEN = 6"

text \<open>\<open>ble_mac_addr_t\<close> is an array of six bytes, \<open>ble_event_t.data\<close> one of 244 bytes.\<close>

type_synonym ble_mac_addr_t = "u8_t list"

record ble_event_t =
  evt_type :: ble_event_type_t
  evt_peer_addr :: ble_mac_addr_t
  evt_data :: "u8_t list"
  evt_data_len :: u16_t
  evt_rssi :: s8_t

definition I2C_INSTANCE_0 :: u32_t where "I2C_INSTANCE_0 = 0"
definition I2C_INSTANCE_1 :: u32_t where "I2C_INSTANCE_1 = 1"
definition I2C_INSTANCE_MAX :: u32_t where "I2C_INSTANCE_MAX = 2"

definition I2C_DIR_WRITE :: u8_t where "I2C_DIR_WRITE = 0"
definition I2C_DIR_READ :: u8_t where "I2C_DIR_READ = 1"

datatype i2c_state_t =
    I2C_STATE_IDLE
  | I2C_STATE_BUSY_TX
  | I2C_STATE_BUSY_RX
  | I2C_STATE_ERROR

section \<open>The machine the drivers run on\<close>

text \<open>
  Every access to a memory-mapped register, every barrier and every call through a
  registered callback pointer is appended to a trace, in program order. \<open>SetBit\<close> and
  \<open>ClrBit\<close> are the read-modify-write macros \<open>BIT_SET\<close> and \<open>BIT_CLEAR\<close> applied
  to a register. The value a volatile read returns is chosen by the device: \<open>device w a n\<close>
  is what a read of address \<open>a\<close> returns when \<open>n\<close> reads have happened before it.
  \<open>ram\<close> holds the caller-owned transfer buffers.
\<close>

datatype event =
    Rd u32_t
  | Wr u32_t u32_t
  | SetBit u32_t nat
  | ClrBit u32_t nat
  | Dsb
  | Isb
  | I2cCallback ptr_t u32_t status_t
  | BleCallback ptr_t ble_event_t

record world =
  device :: "u32_t \<Rightarrow> nat \<Rightarrow> u32_t"
  clock :: nat
  trace :: "event list"
  ram :: "u32_t \<Rightarrow> u8_t"

definition emit :: "event \<Rightarrow> world \<Rightarrow> world" where
  "emit e w = w\<lparr>trace := trace w @ [e]\<rparr>"

definition reg_read :: "u32_t \<Rightarrow> world \<Rightarrow> u32_t \<times> world" where
  "reg_read a w = (device w a (clock w), (emit (Rd a) w)\<lparr>clock := Suc (clock w)\<rparr>)"

definition reg_write :: "u32_t \<Rightarrow> u32_t \<Rightarrow> world \<Rightarrow> world" where
  "reg_write a v w = emit (Wr a v) w"

definition BIT_SET :: "u32_t \<Rightarrow> nat \<Rightarrow> world \<Rightarrow> world" where
  "BIT_SET a b w = emit (SetBit a b) w"

definition BIT_CLEAR :: "u32_t \<Rightarrow> nat \<Rightarrow> world \<Rightarrow> world" where
  "BIT_CLEAR a b w = emit (ClrBit a b) w"

definition DSB :: "world \<Rightarrow> world" where
  "DSB w = emit Dsb w"

section \<open>hal\_gic.c\<close>

definition MAX_IRQ_NUM :: u32_t where "MAX_IRQ_NUM = 256"
definition IRQS_PER_REGISTER :: u32_t where "IRQS_PER_REGISTER = 32"

definition gic_enable_irq :: "u32_t \<Rightarrow> world \<Rightarrow> status_t \<times> world" where
  "gic_enable_irq irq_num w =
     (if irq_num \<ge> MAX_IRQ_NUM then (STATUS_INVALID_PARAM, w)
      else
        let reg_idx = irq_num div IRQS_PER_REGISTER;
            bit_pos = irq_num mod IRQS_PER_REGISTER;
            w1 = reg_write (GICD_ISENABLER reg_idx) (push_bit (unat bit_pos) 1) w;
            w2 = DSB w1
        in (STATUS_OK, w2))"

definition gic_disable_irq :: "u32_t \<Rightarrow> world \<Rightarrow> status_t \<times> world" where
  "gic_disable_irq irq_num w =
     (if irq_num \<ge> MAX_IRQ_NUM then (STATUS_INVALID_PARAM, w)
      else
        let reg_idx = irq_num div IRQS_PER_REGISTER;
            bit_pos = irq_num mod IRQS_PER_REGISTER;
            w1 = reg_write (GICD_ICENABLER reg_idx) (push_bit (unat bit_pos) 1) w;
            w2 = DSB w1
        in (STATUS_OK, w2))"

section \<open>i2c\_driver.c\<close>

definition TIMEOUT_LOOP_COUNT :: u32_t where "TIMEOUT_LOOP_COUNT = 10000"

record i2c_handle_t =
  regs :: u32_t
  state :: i2c_state_t
  rx_buffer :: ptr_t
  tx_buffer :: ptr_t
  buffer_len :: u32_t
  buffer_idx :: u32_t
  dev_address :: u8_t
  callback :: ptr_t
  initialized :: bool

text \<open>
  The static initialiser of \<open>g_i2c_handles\<close>: the fields it does not name are zero.
\<close>

definition g_i2c_handles_init :: "i2c_handle_t list" where
  "g_i2c_handles_init =
     [\<lparr>regs = I2C0_BASE, state = I2C_STATE_IDLE, rx_buffer = 0, tx_buffer = 0,
       buffer_len = 0, buffer_idx = 0, dev_address = 0, callback = 0, initialized = False\<rparr>,
      \<lparr>regs = I2C1_BASE, state = I2C_STATE_IDLE, rx_buffer = 0, tx_buffer = 0,
       buffer_len = 0, buffer_idx = 0, dev_address = 0, callback = 0, initialized = False\<rparr>]"

definition i2c_irq_num :: "u32_t \<Rightarrow> u32_t" where
  "i2c_irq_num instance = (if instance = I2C_INSTANCE_0 then IRQ_I2C0 else IRQ_I2C1)"

definition i2c_deinit ::
  "u32_t \<Rightarrow> i2c_handle_t list \<Rightarrow> world \<Rightarrow> status_t \<times> i2c_handle_t list \<times> world" where
  "i2c_deinit instance hs w =
     (if instance \<ge> I2C_INSTANCE_MAX then (STATUS_INVALID_PARAM, hs, w)
      else
        let handle = hs ! unat instance;
            w1 = BIT_CLEAR (regs handle + CR1) I2C_CR1_PE w;
            w2 = snd (gic_disable_irq (i2c_irq_num instance) w1);
            handle1 = handle\<lparr>initialized := False\<rparr>;
            handle2 = handle1\<lparr>state := I2C_STATE_IDLE\<rparr>
        in (STATUS_OK, hs[unat instance := handle2], w2))"

fun i2c_wait_loop :: "u32_t \<Rightarrow> nat \<Rightarrow> bool \<Rightarrow> nat \<Rightarrow> world \<Rightarrow> status_t \<times> world" where
  "i2c_wait_loop r flag expected 0 w = (STATUS_TIMEOUT, w)"
| "i2c_wait_loop r flag expected (Suc counter) w =
     (let (sr1, w1) = reg_read (r + SR1) w
      in if BIT_CHECK sr1 flag = expected then (STATUS_OK, w1)
         else i2c_wait_loop r flag expected counter w1)"

text \<open>\<open>counter\<close> is a \<open>u32_t\<close>: the product wraps modulo \<open>2 ^ 32\<close>.\<close>

definition i2c_wait_flag :: "u32_t \<Rightarrow> nat \<Rightarrow> bool \<Rightarrow> u32_t \<Rightarrow> world \<Rightarrow> status_t \<times> world" where
  "i2c_wait_flag r flag expected timeout w =
     i2c_wait_loop r flag expected (unat (timeout * TIMEOUT_LOOP_COUNT)) w"

definition i2c_generate_start :: "u32_t \<Rightarrow> world \<Rightarrow> world" where
  "i2c_generate_start r w = BIT_SET (r + CR1) I2C_CR1_START w"

definition i2c_generate_stop :: "u32_t \<Rightarrow> world \<Rightarrow> world" where
  "i2c_generate_stop r w = BIT_SET (r + CR1) I2C_CR1_STOP w"

text \<open>The address byte: \<open>(u8_t)((addr << 1U) | (u8_t)dir)\<close>, computed after integer promotion.\<close>

definition addr_byte :: "u8_t \<Rightarrow> u8_t \<Rightarrow> u8_t" where
  "addr_byte addr dir = ucast (push_bit 1 (ucast addr :: u32_t) OR (ucast dir :: u32_t))"

definition i2c_send_address :: "u32_t \<Rightarrow> u8_t \<Rightarrow> u8_t \<Rightarrow> u32_t \<Rightarrow> world \<Rightarrow> status_t \<times> world" where
  "i2c_send_address r addr dir timeout w =
     (let (result, w1) = i2c_wait_flag r I2C_SR1_SB True timeout w
      in if result = STATUS_OK then
           let w2 = reg_write (r + DR) (ucast (addr_byte addr dir)) w1;
               (result2, w3) = i2c_wait_flag r I2C_SR1_ADDR True timeout w2
           in if result2 = STATUS_OK then
                let w4 = snd (reg_read (r + SR1) w3);
                    w5 = snd (reg_read (r + SR2) w4)
                in (result2, w5)
              else (result2, w3)
         else (result, w1))"

text \<open>
  \<open>while (BIT_CHECK(regs->SR2, I2C_SR2_BUSY) && (wait_count > 0U)) wait_count--;\<close>
  The status register is read before the counter is tested; the result is the counter left.
\<close>

fun bus_free_wait :: "u32_t \<Rightarrow> nat \<Rightarrow> world \<Rightarrow> nat \<times> world" where
  "bus_free_wait r 0 w = (0, snd (reg_read (r + SR2) w))"
| "bus_free_wait r (Suc wait_count) w =
     (let (sr2, w1) = reg_read (r + SR2) w
      in if BIT_CHECK sr2 I2C_SR2_BUSY then bus_free_wait r wait_count w1
         else (Suc wait_count, w1))"

text \<open>
  The transmit loop \<open>for (i = 0; (i < len) && (result == STATUS_OK); i++)\<close>. The index
  stays below \<open>len\<close>, so it never wraps and is a natural number here.
\<close>

function tx_loop :: "u32_t \<Rightarrow> ptr_t \<Rightarrow> u32_t \<Rightarrow> nat \<Rightarrow> nat \<Rightarrow> world \<Rightarrow> status_t \<times> world" where
  "tx_loop r data timeout_ms i len w =
     (if i < len then
        let (result, w1) = i2c_wait_flag r I2C_SR1_TXE True timeout_ms w
        in if result = STATUS_OK then
             tx_loop r data timeout_ms (Suc i) len
               (reg_write (r + DR) (ucast (ram w1 (data + of_nat i))) w1)
           else (result, w1)
      else (STATUS_OK, w))"
  by pat_completeness auto
termination
  by (relation "measure (\<lambda>(r, data, timeout_ms, i, len, w). len - i)") auto

definition i2c_write_blocking ::
  "u32_t \<Rightarrow> u8_t \<Rightarrow> ptr_t \<Rightarrow> u32_t \<Rightarrow> u32_t \<Rightarrow> i2c_handle_t list \<Rightarrow> world
     \<Rightarrow> status_t \<times> i2c_handle_t list \<times> world" where
  "i2c_write_blocking instance dev_addr data len timeout_ms hs w =
     (if IS_NULL_PTR data then (STATUS_INVALID_PARAM, hs, w)
      else if instance \<ge> I2C_INSTANCE_MAX then (STATUS_INVALID_PARAM, hs, w)
      else if \<not> initialized (hs ! unat instance) then (STATUS_NOT_READY, hs, w)
      else if len = 0 then (STATUS_INVALID_PARAM, hs, w)
      else
        let handle = hs ! unat instance;
            r = regs handle;
            hs1 = hs[unat instance := handle\<lparr>state := I2C_STATE_BUSY_TX\<rparr>];
            (wait_count, w1) = bus_free_wait r (unat (timeout_ms * TIMEOUT_LOOP_COUNT)) w;
            (result, w2) =
              (if wait_count = 0 then (STATUS_BUSY, w1)
               else
                 let w3 = i2c_generate_start r w1;
                     (res1, w4) = i2c_send_address r dev_addr I2C_DIR_WRITE timeout_ms w3;
                     (res2, w5) =
                       (if res1 = STATUS_OK then
                          let (res3, w6) = tx_loop r data timeout_ms 0 (unat len) w4
                          in if res3 = STATUS_OK
                             then i2c_wait_flag r I2C_SR1_BTF True timeout_ms w6
                             else (res3, w6)
                        else (res1, w4))
                 in (res2, i2c_generate_stop r w5));
            hs2 = hs1[unat instance := (hs1 ! unat instance)
                  \<lparr>state := (if result = STATUS_OK then I2C_STATE_IDLE else I2C_STATE_ERROR)\<rparr>]
        in (result, hs2, w2))"

text \<open>The receive loop of \<open>i2c_read_blocking\<close>; \<open>data[i]\<close> is a store into caller memory.\<close>

function rx_loop :: "u32_t \<Rightarrow> ptr_t \<Rightarrow> u32_t \<Rightarrow> nat \<Rightarrow> nat \<Rightarrow> world \<Rightarrow> status_t \<times> world" where
  "rx_loop r data timeout_ms i len w =
     (if i < len then
        let w1 = (if i = len - 1
                  then i2c_generate_stop r (BIT_CLEAR (r + CR1) I2C_CR1_ACK w)
                  else w);
            (result, w2) = i2c_wait_flag r I2C_SR1_RXNE True timeout_ms w1
        in if result = STATUS_OK then
             let (dr, w3) = reg_read (r + DR) w2
             in rx_loop r data timeout_ms (Suc i) len
                  (w3\<lparr>ram := (ram w3)(data + of_nat i := ucast dr)\<rparr>)
           else (result, w2)
      else (STATUS_OK, w))"
  by pat_completeness auto
termination
  by (relation "measure (\<lambda>(r, data, timeout_ms, i, len, w). len - i)") auto

definition i2c_read_blocking ::
  "u32_t \<Rightarrow> u8_t \<Rightarrow> ptr_t \<Rightarrow> u32_t \<Rightarrow> u32_t \<Rightarrow> i2c_handle_t list \<Rightarrow> world
     \<Rightarrow> status_t \<times> i2c_handle_t list \<times> world" where
  "i2c_read_blocking instance dev_addr data len timeout_ms hs w =
     (if IS_NULL_PTR data then (STATUS_INVALID_PARAM, hs, w)
      else if instance \<ge> I2C_INSTANCE_MAX then (STATUS_INVALID_PARAM, hs, w)
      else if \<not> initialized (hs ! unat instance) then (STATUS_NOT_READY, hs, w)
      else if len = 0 then (STATUS_INVALID_PARAM, hs, w)
      else
        let handle = hs ! unat instance;
            r = regs handle;
            hs1 = hs[unat instance := handle\<lparr>state := I2C_STATE_BUSY_RX\<rparr>];
            w1 = BIT_SET (r + CR1) I2C_CR1_ACK w;
            w2 = i2c_generate_start r w1;
            (res1, w3) = i2c_send_address r dev_addr I2C_DIR_READ timeout_ms w2;
            (result, w4) =
              (if res1 = STATUS_OK then rx_loop r data timeout_ms 0 (unat len) w3
               else (res1, i2c_generate_stop r w3));
            hs2 = hs1[unat instance := (hs1 ! unat instance)
                  \<lparr>state := (if result = STATUS_OK then I2C_STATE_IDLE else I2C_STATE_ERROR)\<rparr>]
        in (result, hs2, w4))"

definition i2c_write_async ::
  "u32_t \<Rightarrow> u8_t \<Rightarrow> ptr_t \<Rightarrow> u32_t \<Rightarrow> ptr_t \<Rightarrow> i2c_handle_t list \<Rightarrow> world
     \<Rightarrow> status_t \<times> i2c_handle_t list \<times> world" where
  "i2c_write_async instance dev_addr data len cb hs w =
     (if IS_NULL_PTR data \<or> IS_NULL_PTR cb then (STATUS_INVALID_PARAM, hs, w)
      else if instance \<ge> I2C_INSTANCE_MAX then (STATUS_INVALID_PARAM, hs, w)
      else if \<not> initialized (hs ! unat instance) then (STATUS_NOT_READY, hs, w)
      else if state (hs ! unat instance) \<noteq> I2C_STATE_IDLE then (STATUS_BUSY, hs, w)
      else
        let handle = hs ! unat instance;
            handle1 = handle\<lparr>tx_buffer := data\<rparr>;
            handle2 = handle1\<lparr>buffer_len := len\<rparr>;
            handle3 = handle2\<lparr>buffer_idx := 0\<rparr>;
            handle4 = handle3\<lparr>dev_address := dev_addr\<rparr>;
            handle5 = handle4\<lparr>callback := cb\<rparr>;
            handle6 = handle5\<lparr>state := I2C_STATE_BUSY_TX\<rparr>;
            w1 = i2c_generate_start (regs handle6) w
        in (STATUS_OK, hs[unat instance := handle6], w1))"

definition i2c_read_async ::
  "u32_t \<Rightarrow> u8_t \<Rightarrow> ptr_t \<Rightarrow> u32_t \<Rightarrow> ptr_t \<Rightarrow> i2c_handle_t list \<Rightarrow> world
     \<Rightarrow> status_t \<times> i2c_handle_t list \<times> world" where
  "i2c_read_async instance dev_addr data len cb hs w =
     (if IS_NULL_PTR data \<or> IS_NULL_PTR cb then (STATUS_INVALID_PARAM, hs, w)
      else if instance \<ge> I2C_INSTANCE_MAX then (STATUS_INVALID_PARAM, hs, w)
      else if \<not> initialized (hs ! unat instance) then (STATUS_NOT_READY, hs, w)
      else if state (hs ! unat instance) \<noteq> I2C_STATE_IDLE then (STATUS_BUSY, hs, w)
      else
        let handle = hs ! unat instance;
            handle1 = handle\<lparr>rx_buffer := data\<rparr>;
            handle2 = handle1\<lparr>buffer_len := len\<rparr>;
            handle3 = handle2\<lparr>buffer_idx := 0\<rparr>;
            handle4 = handle3\<lparr>dev_address := dev_addr\<rparr>;
            handle5 = handle4\<lparr>callback := cb\<rparr>;
            handle6 = handle5\<lparr>state := I2C_STATE_BUSY_RX\<rparr>;
            w1 = BIT_SET (regs handle6 + CR1) I2C_CR1_ACK w;
            w2 = i2c_generate_start (regs handle6) w1
        in (STATUS_OK, hs[unat instance := handle6], w2))"

text \<open>A call through the stored completion callback, guarded by \<open>IS_VALID_PTR\<close>.\<close>

definition i2c_invoke_callback :: "ptr_t \<Rightarrow> u32_t \<Rightarrow> status_t \<Rightarrow> world \<Rightarrow> world" where
  "i2c_invoke_callback cb instance result w =
     (if IS_VALID_PTR cb then emit (I2cCallback cb instance result) w else w)"

definition i2c_irq_handler ::
  "u32_t \<Rightarrow> i2c_handle_t list \<Rightarrow> world \<Rightarrow> i2c_handle_t list \<times> world" where
  "i2c_irq_handler instance hs w =
     (if instance < I2C_INSTANCE_MAX then
        let handle = hs ! unat instance;
            r = regs handle;
            (sr1, w1) = reg_read (r + SR1) w
        in if BIT_CHECK sr1 I2C_SR1_SB then
             let dir = (if state handle = I2C_STATE_BUSY_TX then 0 else 1)
             in (hs, reg_write (r + DR) (ucast (addr_byte (dev_address handle) dir)) w1)
           else if BIT_CHECK sr1 I2C_SR1_ADDR then
             let w2 = snd (reg_read (r + SR2) w1)
             in if state handle = I2C_STATE_BUSY_RX \<and> buffer_len handle = 1
                then (hs, BIT_CLEAR (r + CR1) I2C_CR1_ACK w2)
                else (hs, w2)
           else if BIT_CHECK sr1 I2C_SR1_TXE \<and> state handle = I2C_STATE_BUSY_TX then
             if buffer_idx handle < buffer_len handle then
               let w2 = reg_write (r + DR)
                          (ucast (ram w1 (tx_buffer handle + buffer_idx handle))) w1;
                   handle1 = handle\<lparr>buffer_idx := buffer_idx handle + 1\<rparr>
               in (hs[unat instance := handle1], w2)
             else if BIT_CHECK sr1 I2C_SR1_BTF then
               let w2 = i2c_generate_stop r w1;
                   handle1 = handle\<lparr>state := I2C_STATE_IDLE\<rparr>;
                   w3 = i2c_invoke_callback (callback handle1) instance STATUS_OK w2
               in (hs[unat instance := handle1], w3)
             else (hs, w1)
           else if BIT_CHECK sr1 I2C_SR1_RXNE \<and> state handle = I2C_STATE_BUSY_RX then
             let (dr, w2) = reg_read (r + DR) w1;
                 w3 = w2\<lparr>ram := (ram w2)(rx_buffer handle + buffer_idx handle := ucast dr)\<rparr>;
                 handle1 = handle\<lparr>buffer_idx := buffer_idx handle + 1\<rparr>;
                 w4 = (if buffer_idx handle1 = buffer_len handle1 - 1
                       then i2c_generate_stop r (BIT_CLEAR (r + CR1) I2C_CR1_ACK w3)
                       else w3)
             in if buffer_idx handle1 \<ge> buffer_len handle1 then
                  let handle2 = handle1\<lparr>state := I2C_STATE_IDLE\<rparr>;
                      w5 = i2c_invoke_callback (callback handle2) instance STATUS_OK w4
                  in (hs[unat instance := handle2], w5)
                else (hs[unat instance := handle1], w4)
           else if BIT_CHECK sr1 I2C_SR1_AF then
             let w2 = reg_write (r + SR1) (NOT (push_bit I2C_SR1_AF 1)) w1;
                 w3 = i2c_generate_stop r w2;
                 handle1 = handle\<lparr>state := I2C_STATE_ERROR\<rparr>;
                 w4 = i2c_invoke_callback (callback handle1) instance STATUS_ERROR w3
             in (hs[unat instance := handle1], w4)
           else (hs, w1)
      else (hs, w))"

text \<open>How often a trace issues STOP, and how often it clears ACK, on the controller at \<open>r\<close>.\<close>

definition stops :: "u32_t \<Rightarrow> event list \<Rightarrow> nat" where
  "stops r t = count_list t (SetBit (r + CR1) I2C_CR1_STOP)"

definition ack_clears :: "u32_t \<Rightarrow> event list \<Rightarrow> nat" where
  "ack_clears r t = count_list t (ClrBit (r + CR1) I2C_CR1_ACK)"

section \<open>ble\_driver.c\<close>

definition BLE_BASE :: u32_t where "BLE_BASE = PERIPH_BASE + 0x00010000"

text \<open>Addresses of the fields of \<open>ble_regs_t\<close> that the modelled functions access.\<close>

definition BLE_INT_FLAG :: u32_t where "BLE_INT_FLAG = BLE_BASE + 12"
definition BLE_RX_DATA :: u32_t where "BLE_RX_DATA = BLE_BASE + 20"
definition BLE_RX_LEN :: u32_t where "BLE_RX_LEN = BLE_BASE + 28"

definition BLE_INT_CONNECTED :: nat where "BLE_INT_CONNECTED = 0"
definition BLE_INT_DISCONNECTED :: nat where "BLE_INT_DISCONNECTED = 1"
definition BLE_INT_RX_DONE :: nat where "BLE_INT_RX_DONE = 2"
definition BLE_INT_TX_DONE :: nat where "BLE_INT_TX_DONE = 3"
definition BLE_INT_ERROR :: nat where "BLE_INT_ERROR = 7"

definition BLE_EVENT_QUEUE_SIZE :: u32_t where "BLE_EVENT_QUEUE_SIZE = 8"

record ble_config_t =
  device_name :: "char list"
  adv_interval_ms :: u16_t
  conn_interval_min_ms :: u16_t
  conn_interval_max_ms :: u16_t
  tx_power_dbm :: s8_t
  use_interrupts :: bool

record ble_handle_t =
  ble_state :: ble_state_t
  ble_callback :: ptr_t
  ble_config :: ble_config_t
  local_addr :: ble_mac_addr_t
  peer_addr :: ble_mac_addr_t
  event_queue :: "ble_event_t list"
  evt_queue_head :: u8_t
  evt_queue_tail :: u8_t
  ble_initialized :: bool
  ble_rx_buffer :: "u8_t list"
  rx_len :: u16_t
  rx_pending :: bool
  tx_complete :: bool

text \<open>
  \<open>(index + 1U) % BLE_EVENT_QUEUE_SIZE\<close>: the \<open>u8_t\<close> index is promoted to 32 bits
  before the addition, and the result is stored back into a \<open>u8_t\<close>.
\<close>

definition next_index :: "u8_t \<Rightarrow> u8_t" where
  "next_index i = ucast (((ucast i :: u32_t) + 1) mod BLE_EVENT_QUEUE_SIZE)"

definition ble_enqueue_event :: "ble_event_t \<Rightarrow> ble_handle_t \<Rightarrow> status_t \<times> ble_handle_t" where
  "ble_enqueue_event event g =
     (let next_head = next_index (evt_queue_head g)
      in if next_head = evt_queue_tail g then (STATUS_ERROR, g)
         else
           let g1 = g\<lparr>event_queue := (event_queue g)[unat (evt_queue_head g) := event]\<rparr>;
               g2 = g1\<lparr>evt_queue_head := next_head\<rparr>
           in (STATUS_OK, g2))"

text \<open>
  \<open>ble_dequeue_event\<close> returns \<open>has_event\<close>, the contents of \<open>*event\<close> afterwards and the
  handle; \<open>*event\<close> is written only when an event is taken.
\<close>

definition ble_dequeue_event ::
  "ble_event_t \<Rightarrow> ble_handle_t \<Rightarrow> bool \<times> ble_event_t \<times> ble_handle_t" where
  "ble_dequeue_event event g =
     (if evt_queue_tail g \<noteq> evt_queue_head g then
        let event1 = event_queue g ! unat (evt_queue_tail g);
            g1 = g\<lparr>evt_queue_tail := next_index (evt_queue_tail g)\<rparr>
        in (True, event1, g1)
      else (False, event, g))"

text \<open>
  The copy loop of \<open>ble_read_rx_data\<close>. A store into \<open>rx_buffer\<close> at an index outside the
  array is undefined behaviour in C: the model answers \<open>None\<close> there.
\<close>

function rx_copy_loop :: "nat \<Rightarrow> ble_handle_t \<Rightarrow> world \<Rightarrow> (ble_handle_t \<times> world) option" where
  "rx_copy_loop i g w =
     (if i < unat (rx_len g) then
        let (d, w1) = reg_read BLE_RX_DATA w
        in if i < length (ble_rx_buffer g) then
             rx_copy_loop (Suc i)
               (g\<lparr>ble_rx_buffer := (ble_rx_buffer g)[i := ucast (d AND 0xFF)]\<rparr>) w1
           else None
      else Some (g, w))"
  by pat_completeness auto
termination
  by (relation "measure (\<lambda>(i, g, w). unat (rx_len g) - i)") auto

definition ble_read_rx_data :: "ble_handle_t \<Rightarrow> world \<Rightarrow> (ble_handle_t \<times> world) option" where
  "ble_read_rx_data g w =
     (let (v, w1) = reg_read BLE_RX_LEN w;
          rx_len1 = (if v > of_nat BLE_MAX_PAYLOAD_SIZE then of_nat BLE_MAX_PAYLOAD_SIZE else v);
          g1 = g\<lparr>rx_len := ucast rx_len1\<rparr>
      in case rx_copy_loop 0 g1 w1 of
           None \<Rightarrow> None
         | Some (g2, w2) \<Rightarrow> Some (g2\<lparr>rx_pending := True\<rparr>, w2))"

definition ble_invoke_callback :: "ptr_t \<Rightarrow> ble_event_t \<Rightarrow> world \<Rightarrow> world" where
  "ble_invoke_callback cb evt w =
     (if IS_VALID_PTR cb then emit (BleCallback cb evt) w else w)"

text \<open>
  \<open>while (ble_dequeue_event(&evt)) { callback(&evt); }\<close>. Nothing in the loop bounds the
  number of rounds, so not returning is the value \<open>None\<close>.
\<close>

partial_function (option) ble_drain ::
  "ble_event_t \<Rightarrow> ble_handle_t \<Rightarrow> world \<Rightarrow> (ble_event_t \<times> ble_handle_t \<times> world) option" where
  "ble_drain evt g w =
     (let (has_event, evt1, g1) = ble_dequeue_event evt g
      in if has_event
         then ble_drain evt1 g1 (ble_invoke_callback (ble_callback g1) evt1 w)
         else Some (evt1, g1, w))"

text \<open>
  \<open>ble_process\<close>. Its local \<open>evt\<close> is not initialised: \<open>evt0\<close> is what the stack holds
  there on entry. \<open>memcpy(evt.data, rx_buffer, rx_len)\<close> overwrites the first \<open>rx_len\<close>
  bytes of \<open>evt.data\<close>.
\<close>

definition staged_event :: "ble_event_t \<Rightarrow> ble_handle_t \<Rightarrow> ble_event_t" where
  "staged_event evt0 g =
     (let evt1 = evt0\<lparr>evt_type := BLE_EVT_DATA_RECEIVED\<rparr>;
          evt2 = evt1\<lparr>evt_data_len := rx_len g\<rparr>;
          evt3 = evt2\<lparr>evt_data := take (unat (rx_len g)) (ble_rx_buffer g)
                                     @ drop (unat (rx_len g)) (evt_data evt2)\<rparr>
      in evt3\<lparr>evt_peer_addr := peer_addr g\<rparr>)"

definition ble_process ::
  "ble_event_t \<Rightarrow> ble_handle_t \<Rightarrow> world \<Rightarrow> (ble_handle_t \<times> world) option" where
  "ble_process evt0 g w =
     (let (evt1, g1, w1) =
            (if rx_pending g then
               let g' = g\<lparr>rx_pending := False\<rparr>;
                   evt = staged_event evt0 g'
               in (evt, g', ble_invoke_callback (ble_callback g') evt w)
             else (evt0, g, w))
      in case ble_drain evt1 g1 w1 of
           None \<Rightarrow> None
         | Some (evt2, g2, w2) \<Rightarrow> Some (g2, w2))"

text \<open>The initialiser \<open>{ .type = BLE_EVT_NONE, .data_len = 0U }\<close> zeroes every other field.\<close>

definition irq_evt_init :: ble_event_t where
  "irq_evt_init =
     \<lparr>evt_type = BLE_EVT_NONE, evt_peer_addr = replicate BLE_MAC_ADDR_LEN 0,
      evt_data = replicate BLE_MAX_PAYLOAD_SIZE 0, evt_data_len = 0, evt_rssi = 0\<rparr>"

text \<open>
  \<open>ble_irq_handler\<close>: five independent \<open>if\<close> blocks on the flags read once on entry. The
  local \<open>evt\<close> is shared by the blocks; the status of \<open>ble_enqueue_event\<close> is discarded.
\<close>

definition irq_connected ::
  "u32_t \<Rightarrow> ble_event_t \<times> ble_handle_t \<times> world \<Rightarrow> ble_event_t \<times> ble_handle_t \<times> world" where
  "irq_connected int_flags s =
     (let (evt, g, w) = s
      in if BIT_CHECK int_flags BLE_INT_CONNECTED then
           let w1 = reg_write BLE_INT_FLAG (push_bit BLE_INT_CONNECTED 1) w;
               g1 = g\<lparr>ble_state := BLE_STATE_CONNECTED\<rparr>;
               evt1 = evt\<lparr>evt_type := BLE_EVT_CONNECTED\<rparr>;
               evt2 = evt1\<lparr>evt_peer_addr := peer_addr g1\<rparr>
           in (evt2, snd (ble_enqueue_event evt2 g1), w1)
         else s)"

definition irq_disconnected ::
  "u32_t \<Rightarrow> ble_event_t \<times> ble_handle_t \<times> world \<Rightarrow> ble_event_t \<times> ble_handle_t \<times> world" where
  "irq_disconnected int_flags s =
     (let (evt, g, w) = s
      in if BIT_CHECK int_flags BLE_INT_DISCONNECTED then
           let w1 = reg_write BLE_INT_FLAG (push_bit BLE_INT_DISCONNECTED 1) w;
               g1 = g\<lparr>ble_state := BLE_STATE_IDLE\<rparr>;
               evt1 = evt\<lparr>evt_type := BLE_EVT_DISCONNECTED\<rparr>
           in (evt1, snd (ble_enqueue_event evt1 g1), w1)
         else s)"

definition irq_rx_done ::
  "u32_t \<Rightarrow> ble_event_t \<times> ble_handle_t \<times> world
     \<Rightarrow> (ble_event_t \<times> ble_handle_t \<times> world) option" where
  "irq_rx_done int_flags s =
     (let (evt, g, w) = s
      in if BIT_CHECK int_flags BLE_INT_RX_DONE then
           let w1 = reg_write BLE_INT_FLAG (push_bit BLE_INT_RX_DONE 1) w
           in case ble_read_rx_data g w1 of
                None \<Rightarrow> None
              | Some (g1, w2) \<Rightarrow> Some (evt, g1, w2)
         else Some s)"

definition irq_tx_done ::
  "u32_t \<Rightarrow> ble_event_t \<times> ble_handle_t \<times> world \<Rightarrow> ble_event_t \<times> ble_handle_t \<times> world" where
  "irq_tx_done int_flags s =
     (let (evt, g, w) = s
      in if BIT_CHECK int_flags BLE_INT_TX_DONE then
           let w1 = reg_write BLE_INT_FLAG (push_bit BLE_INT_TX_DONE 1) w;
               g1 = g\<lparr>tx_complete := True\<rparr>;
               evt1 = evt\<lparr>evt_type := BLE_EVT_DATA_SENT\<rparr>
           in (evt1, snd (ble_enqueue_event evt1 g1), w1)
         else s)"

definition irq_error ::
  "u32_t \<Rightarrow> ble_event_t \<times> ble_handle_t \<times> world \<Rightarrow> ble_event_t \<times> ble_handle_t \<times> world" where
  "irq_error int_flags s =
     (let (evt, g, w) = s
      in if BIT_CHECK int_flags BLE_INT_ERROR then
           let w1 = reg_write BLE_INT_FLAG (push_bit BLE_INT_ERROR 1) w;
               g1 = g\<lparr>ble_state := BLE_STATE_ERROR\<rparr>;
               evt1 = evt\<lparr>evt_type := BLE_EVT_ERROR\<rparr>
           in (evt1, snd (ble_enqueue_event evt1 g1), w1)
         else s)"

definition ble_irq_handler :: "ble_handle_t \<Rightarrow> world \<Rightarrow> (ble_handle_t \<times> world) option" where
  "ble_irq_handler g w =
     (let (int_flags, w1) = reg_read BLE_INT_FLAG w;
          s1 = irq_connected int_flags (irq_evt_init, g, w1);
          s2 = irq_disconnected int_flags s1
      in case irq_rx_done int_flags s2 of
           None \<Rightarrow> None
         | Some s3 \<Rightarrow>
             let s4 = irq_tx_done int_flags s3;
                 (evt5, g5, w5) = irq_error int_flags s4
             in Some (g5, w5))"

text \<open>
  The events waiting in the circular queue, oldest first: the slots from \<open>evt_queue_tail\<close>
  up to, not including, \<open>evt_queue_head\<close>, going round modulo 8.
\<close>

definition queue_count :: "ble_handle_t \<Rightarrow> nat" where
  "queue_count g = (unat (evt_queue_head g) + 8 - unat (evt_queue_tail g)) mod 8"

definition queued :: "ble_handle_t \<Rightarrow> ble_event_t list" where
  "queued g =
     map (\<lambda>k. event_queue g ! ((unat (evt_queue_tail g) + k) mod 8)) [0..<queue_count g]"

text \<open>
  The representation invariant of the static handle: both indices stay inside the
  eight-slot queue and the two arrays have their declared sizes.
\<close>

definition ble_handle_ok :: "ble_handle_t \<Rightarrow> bool" where
  "ble_handle_ok g \<longleftrightarrow>
     length (event_queue g) = 8 \<and> unat (evt_queue_head g) < 8 \<and> unat (evt_queue_tail g) < 8
     \<and> length (ble_rx_buffer g) = BLE_MAX_PAYLOAD_SIZE"

section \<open>Concrete machines and handles\<close>

text \<open>A device whose registers all read as zero, with an empty trace and zeroed memory.\<close>

definition quiet_world :: world where
  "quiet_world = \<lparr>device = (\<lambda>a n. 0), clock = 0, trace = [], ram = (\<lambda>a. 0)\<rparr>"

text \<open>A controller whose status flags are all set and whose bus is never busy.\<close>

definition ready_world :: world where
  "ready_world =
     \<lparr>device = (\<lambda>a n. if a = I2C0_BASE + SR1 then 0xFFFFFFFF else 0),
      clock = 0, trace = [], ram = (\<lambda>a. 0)\<rparr>"

text \<open>A bus that another master keeps busy for ever: \<open>SR2\<close> always reads with BUSY set.\<close>

definition stuck_bus_world :: world where
  "stuck_bus_world =
     \<lparr>device = (\<lambda>a n. if a = I2C0_BASE + SR2 then 2 else 0),
      clock = 0, trace = [], ram = (\<lambda>a. 0)\<rparr>"

text \<open>
  A controller that reports, on three successive interrupts, start sent (SB), address
  acknowledged (ADDR) and receiver not empty (RXNE); the data register reads \<open>0x5A\<close>.
\<close>

definition single_byte_world :: world where
  "single_byte_world =
     \<lparr>device = (\<lambda>a n. if a = I2C0_BASE + SR1
                        then (if n = 0 then 0x01 else if n = 1 then 0x02 else 0x40)
                        else 0x5A),
      clock = 0, trace = [], ram = (\<lambda>a. 0)\<rparr>"

text \<open>The handles after \<open>i2c_init\<close> of instance 0: initialised and idle.\<close>

definition i2c_handles_ready :: "i2c_handle_t list" where
  "i2c_handles_ready = g_i2c_handles_init[0 := (g_i2c_handles_init ! 0)\<lparr>initialized := True\<rparr>]"

text \<open>The handles while an asynchronous four-byte read is in flight on instance 0.\<close>

definition i2c_handles_busy :: "i2c_handle_t list" where
  "i2c_handles_busy =
     fst (snd (i2c_read_async 0 0x48 0x20000000 4 0x08000101 i2c_handles_ready quiet_world))"

text \<open>An asynchronous read of one byte, followed by the three interrupts that complete it.\<close>

definition single_byte_read :: "i2c_handle_t list \<times> world" where
  "single_byte_read =
     (let (st, hs0, w0) = i2c_read_async 0 0x48 0x20000000 1 0x08000101
                            i2c_handles_ready single_byte_world;
          (hs1, w1) = i2c_irq_handler 0 hs0 w0;
          (hs2, w2) = i2c_irq_handler 0 hs1 w1
      in i2c_irq_handler 0 hs2 w2)"

text \<open>The static initialiser of \<open>g_ble_handle\<close>; the fields it does not name are zero.\<close>

definition g_ble_handle_init :: ble_handle_t where
  "g_ble_handle_init =
     \<lparr>ble_state = BLE_STATE_OFF, ble_callback = 0,
      ble_config = \<lparr>device_name = replicate 32 (CHR 0x00), adv_interval_ms = 0,
                    conn_interval_min_ms = 0, conn_interval_max_ms = 0, tx_power_dbm = 0,
                    use_interrupts = False\<rparr>,
      local_addr = replicate BLE_MAC_ADDR_LEN 0, peer_addr = replicate BLE_MAC_ADDR_LEN 0,
      event_queue = replicate 8 irq_evt_init, evt_queue_head = 0, evt_queue_tail = 0,
      ble_initialized = False, ble_rx_buffer = replicate BLE_MAX_PAYLOAD_SIZE 0, rx_len = 0,
      rx_pending = False, tx_complete = False\<rparr>"

text \<open>The handle as \<open>ble_init\<close> leaves it: a callback registered, state Idle, queue empty.\<close>

definition ble_handle_ready :: ble_handle_t where
  "ble_handle_ready =
     g_ble_handle_init\<lparr>ble_state := BLE_STATE_IDLE, ble_callback := 0x08000301,
                        ble_initialized := True\<rparr>"

definition event_A :: ble_event_t where
  "event_A = irq_evt_init\<lparr>evt_type := BLE_EVT_CONNECTED\<rparr>"

definition event_B :: ble_event_t where
  "event_B = irq_evt_init\<lparr>evt_type := BLE_EVT_DATA_SENT\<rparr>"

definition event_C :: ble_event_t where
  "event_C = irq_evt_init\<lparr>evt_type := BLE_EVT_DISCONNECTED\<rparr>"

text \<open>A radio whose interrupt-flag register reads \<open>flags\<close> and whose RX\_LEN reads \<open>len\<close>.\<close>

definition ble_world :: "u32_t \<Rightarrow> u32_t \<Rightarrow> world" where
  "ble_world flags len =
     \<lparr>device = (\<lambda>a n. if a = BLE_INT_FLAG then flags else if a = BLE_RX_LEN then len else 0x41),
      clock = 0, trace = [], ram = (\<lambda>a. 0)\<rparr>"

text \<open>
  A run of enqueue calls, each with its status discarded, as every caller in the driver
  does with \<open>(void)ble_enqueue_event(&evt)\<close>.
\<close>

fun enqueue_all :: "ble_event_t list \<Rightarrow> ble_handle_t \<Rightarrow> ble_handle_t" where
  "enqueue_all [] g = g"
| "enqueue_all (e # es) g = enqueue_all es (snd (ble_enqueue_event e g))"

declare tx_loop.simps [simp del] rx_loop.simps [simp del] rx_copy_loop.simps [simp del]

section \<open>Interrupt controller: enabling and disabling a line\<close>

lemma irq_div_mod:
  "unat ((irq_num :: u32_t) mod IRQS_PER_REGISTER) = unat irq_num mod 32"
  by (simp add: IRQS_PER_REGISTER_def unat_mod)

lemma one_hot_bit: "k < 32 \<Longrightarrow> bit (push_bit k 1 :: u32_t) n \<longleftrightarrow> n = k"
  by (auto simp add: bit_exp_iff possible_bit_word)

text \<open>
  Claim C7. For a line number of 256 or more, \<open>gic_enable_irq\<close> and \<open>gic_disable_irq\<close>
  return \<open>STATUS_INVALID_PARAM\<close> and perform no register access at all. For a line below
  256 they return \<open>STATUS_OK\<close> after exactly one register write followed by a \<open>DSB\<close>
  barrier: the write goes to word \<open>line div 32\<close> of the set-enable (respectively
  clear-enable) register bank, and the value written has bit \<open>line mod 32\<close> set and no
  other bit.
\<close>

theorem gic_enable_disable_irq:
  "(irq_num \<ge> 256 \<longrightarrow>
      gic_enable_irq irq_num w = (STATUS_INVALID_PARAM, w) \<and>
      gic_disable_irq irq_num w = (STATUS_INVALID_PARAM, w))
   \<and> (irq_num < 256 \<longrightarrow>
      gic_enable_irq irq_num w =
        (STATUS_OK, w\<lparr>trace := trace w @
           [Wr (GICD_ISENABLER (irq_num div 32)) (push_bit (unat irq_num mod 32) 1), Dsb]\<rparr>) \<and>
      gic_disable_irq irq_num w =
        (STATUS_OK, w\<lparr>trace := trace w @
           [Wr (GICD_ICENABLER (irq_num div 32)) (push_bit (unat irq_num mod 32) 1), Dsb]\<rparr>) \<and>
      (\<forall>n. bit (push_bit (unat irq_num mod 32) 1 :: u32_t) n \<longleftrightarrow> n = unat irq_num mod 32))"
proof (intro conjI impI)
  assume "256 \<le> irq_num"
  then show "gic_enable_irq irq_num w = (STATUS_INVALID_PARAM, w)"
    by (simp add: gic_enable_irq_def MAX_IRQ_NUM_def)
next
  assume "256 \<le> irq_num"
  then show "gic_disable_irq irq_num w = (STATUS_INVALID_PARAM, w)"
    by (simp add: gic_disable_irq_def MAX_IRQ_NUM_def)
next
  assume "irq_num < 256"
  then have "\<not> MAX_IRQ_NUM \<le> irq_num" by (simp add: MAX_IRQ_NUM_def not_le)
  then show "gic_enable_irq irq_num w =
        (STATUS_OK, w\<lparr>trace := trace w @
           [Wr (GICD_ISENABLER (irq_num div 32)) (push_bit (unat irq_num mod 32) 1), Dsb]\<rparr>)"
    by (simp add: gic_enable_irq_def irq_div_mod reg_write_def DSB_def emit_def Let_def)
       (simp add: IRQS_PER_REGISTER_def)
next
  assume "irq_num < 256"
  then have "\<not> MAX_IRQ_NUM \<le> irq_num" by (simp add: MAX_IRQ_NUM_def not_le)
  then show "gic_disable_irq irq_num w =
        (STATUS_OK, w\<lparr>trace := trace w @
           [Wr (GICD_ICENABLER (irq_num div 32)) (push_bit (unat irq_num mod 32) 1), Dsb]\<rparr>)"
    by (simp add: gic_disable_irq_def irq_div_mod reg_write_def DSB_def emit_def Let_def)
       (simp add: IRQS_PER_REGISTER_def)
next
  show "\<forall>n. bit (push_bit (unat irq_num mod 32) 1 :: u32_t) n \<longleftrightarrow> n = unat irq_num mod 32"
    using one_hot_bit [of "unat irq_num mod 32"] by simp
qed

theorem gic_enable_disable_irq_witness:
  "gic_enable_irq 48 quiet_world =
     (STATUS_OK, quiet_world\<lparr>trace := [Wr 0x2C001104 0x10000, Dsb]\<rparr>)
   \<and> gic_disable_irq 48 quiet_world =
     (STATUS_OK, quiet_world\<lparr>trace := [Wr 0x2C001184 0x10000, Dsb]\<rparr>)
   \<and> gic_enable_irq 256 quiet_world = (STATUS_INVALID_PARAM, quiet_world)
   \<and> gic_disable_irq 256 quiet_world = (STATUS_INVALID_PARAM, quiet_world)"
  using gic_enable_disable_irq [of 48 quiet_world] gic_enable_disable_irq [of 256 quiet_world]
  by (simp add: GICD_ISENABLER_def GICD_ICENABLER_def GIC_DIST_BASE_def GIC_BASE_def
      quiet_world_def)

section \<open>The machine: what each primitive does to the world\<close>

lemma emit_simps [simp]:
  "device (emit e w) = device w" "clock (emit e w) = clock w"
  "trace (emit e w) = trace w @ [e]" "ram (emit e w) = ram w"
  by (simp_all add: emit_def)

lemma reg_read_simps [simp]:
  "fst (reg_read a w) = device w a (clock w)"
  "device (snd (reg_read a w)) = device w"
  "clock (snd (reg_read a w)) = Suc (clock w)"
  "trace (snd (reg_read a w)) = trace w @ [Rd a]"
  "ram (snd (reg_read a w)) = ram w"
  by (simp_all add: reg_read_def)

lemma reg_write_simps [simp]:
  "device (reg_write a v w) = device w" "clock (reg_write a v w) = clock w"
  "trace (reg_write a v w) = trace w @ [Wr a v]" "ram (reg_write a v w) = ram w"
  by (simp_all add: reg_write_def)

lemma BIT_SET_simps [simp]:
  "device (BIT_SET a b w) = device w" "clock (BIT_SET a b w) = clock w"
  "trace (BIT_SET a b w) = trace w @ [SetBit a b]" "ram (BIT_SET a b w) = ram w"
  by (simp_all add: BIT_SET_def)

lemma BIT_CLEAR_simps [simp]:
  "device (BIT_CLEAR a b w) = device w" "clock (BIT_CLEAR a b w) = clock w"
  "trace (BIT_CLEAR a b w) = trace w @ [ClrBit a b]" "ram (BIT_CLEAR a b w) = ram w"
  by (simp_all add: BIT_CLEAR_def)

lemma stop_trace [simp]:
  "trace (i2c_generate_stop r w) = trace w @ [SetBit (r + CR1) I2C_CR1_STOP]"
  by (simp add: i2c_generate_stop_def)

lemma start_trace [simp]:
  "trace (i2c_generate_start r w) = trace w @ [SetBit (r + CR1) I2C_CR1_START]"
  by (simp add: i2c_generate_start_def)

lemma start_is_not_stop [simp]: "I2C_CR1_START \<noteq> I2C_CR1_STOP" "I2C_CR1_ACK \<noteq> I2C_CR1_STOP"
  by (simp_all add: I2C_CR1_START_def I2C_CR1_STOP_def I2C_CR1_ACK_def)

lemma stops_snoc:
  "stops r [] = 0"
  "stops r (e # t) = (if e = SetBit (r + CR1) I2C_CR1_STOP then 1 else 0) + stops r t"
  "stops r (t @ u) = stops r t + stops r u"
  by (simp_all add: stops_def)

lemma ack_clears_snoc:
  "ack_clears r [] = 0"
  "ack_clears r (e # t) = (if e = ClrBit (r + CR1) I2C_CR1_ACK then 1 else 0) + ack_clears r t"
  "ack_clears r (t @ u) = ack_clears r t + ack_clears r u"
  by (simp_all add: ack_clears_def)

section \<open>I2C: running the driver on the concrete machines\<close>

lemma i2c_wait_loop_hit:
  "0 < n \<Longrightarrow> BIT_CHECK (device w (r + SR1) (clock w)) flag = expected \<Longrightarrow>
     i2c_wait_loop r flag expected n w = (STATUS_OK, snd (reg_read (r + SR1) w))"
  by (cases n) (simp_all add: reg_read_def)

lemma i2c_wait_flag_hit:
  "timeout * TIMEOUT_LOOP_COUNT \<noteq> 0 \<Longrightarrow>
   BIT_CHECK (device w (r + SR1) (clock w)) flag = expected \<Longrightarrow>
     i2c_wait_flag r flag expected timeout w = (STATUS_OK, snd (reg_read (r + SR1) w))"
  unfolding i2c_wait_flag_def
  by (rule i2c_wait_loop_hit) (simp_all add: unat_gt_0)

lemma bus_free_wait_free:
  "0 < n \<Longrightarrow> \<not> BIT_CHECK (device w (r + SR2) (clock w)) I2C_SR2_BUSY \<Longrightarrow>
     bus_free_wait r n w = (n, snd (reg_read (r + SR2) w))"
  by (cases n) (simp_all add: reg_read_def)

lemma handles_ready_simps:
  "length i2c_handles_ready = 2"
  "i2c_handles_ready ! 0 = \<lparr>regs = I2C0_BASE, state = I2C_STATE_IDLE, rx_buffer = 0, tx_buffer = 0,
       buffer_len = 0, buffer_idx = 0, dev_address = 0, callback = 0, initialized = True\<rparr>"
  by (simp_all add: i2c_handles_ready_def g_i2c_handles_init_def)

lemma handles_busy_simps:
  "length i2c_handles_busy = 2"
  "i2c_handles_busy ! 0 = \<lparr>regs = I2C0_BASE, state = I2C_STATE_BUSY_RX, rx_buffer = 0x20000000,
       tx_buffer = 0, buffer_len = 4, buffer_idx = 0, dev_address = 0x48,
       callback = 0x08000101, initialized = True\<rparr>"
  by (simp_all add: i2c_handles_busy_def i2c_read_async_def handles_ready_simps
        IS_NULL_PTR_def I2C_INSTANCE_MAX_def Let_def)

lemma sr1_ready: "BIT_CHECK 0xFFFFFFFF I2C_SR1_SB" "BIT_CHECK 0xFFFFFFFF I2C_SR1_ADDR"
  "BIT_CHECK 0xFFFFFFFF I2C_SR1_TXE" "BIT_CHECK 0xFFFFFFFF I2C_SR1_BTF"
  "BIT_CHECK 0xFFFFFFFF I2C_SR1_RXNE" "\<not> BIT_CHECK 0 I2C_SR2_BUSY"
  by (simp_all add: BIT_CHECK_def I2C_SR1_SB_def I2C_SR1_ADDR_def I2C_SR1_TXE_def I2C_SR1_BTF_def
      I2C_SR1_RXNE_def I2C_SR2_BUSY_def)

lemmas i2c_eval =
  handles_busy_simps handles_ready_simps IS_NULL_PTR_def IS_VALID_PTR_def I2C_INSTANCE_MAX_def
  Let_def TIMEOUT_LOOP_COUNT_def bus_free_wait_free i2c_wait_flag_hit
  i2c_send_address_def i2c_generate_start_def i2c_generate_stop_def sr1_ready
  SR1_def SR2_def I2C0_BASE_def PERIPH_BASE_def tx_loop.simps rx_loop.simps

lemma valid_instance:
  assumes "instance < I2C_INSTANCE_MAX"
  shows "\<not> I2C_INSTANCE_MAX \<le> instance" and "unat instance < 2"
  using assms by (simp_all add: not_le I2C_INSTANCE_MAX_def word_less_nat_alt)

section \<open>I2C: deinitialisation\<close>

text \<open>
  Claim C10. For every valid instance (0 or 1), \<open>i2c_deinit\<close> returns \<open>STATUS_OK\<close> and
  leaves the instance in state Idle with \<open>initialized = false\<close>, whatever the handle held
  before: never initialised, Busy or Error. It checks neither the state nor the
  initialised flag, so it never returns NotReady or Busy.
\<close>

theorem i2c_deinit_resets:
  assumes "instance < I2C_INSTANCE_MAX" and "length hs = 2"
  shows "fst (i2c_deinit instance hs w) = STATUS_OK
       \<and> state (fst (snd (i2c_deinit instance hs w)) ! unat instance) = I2C_STATE_IDLE
       \<and> \<not> initialized (fst (snd (i2c_deinit instance hs w)) ! unat instance)"
  using valid_instance [OF assms(1)] assms(2) by (simp add: i2c_deinit_def Let_def)

theorem i2c_deinit_resets_witness:
  "fst (i2c_deinit 0 i2c_handles_busy quiet_world) = STATUS_OK
   \<and> state (fst (snd (i2c_deinit 0 i2c_handles_busy quiet_world)) ! 0) = I2C_STATE_IDLE
   \<and> \<not> initialized (fst (snd (i2c_deinit 0 i2c_handles_busy quiet_world)) ! 0)
   \<and> state (i2c_handles_busy ! 0) = I2C_STATE_BUSY_RX
   \<and> fst (i2c_deinit 1 g_i2c_handles_init quiet_world) = STATUS_OK
   \<and> state (fst (snd (i2c_deinit 1 g_i2c_handles_init quiet_world)) ! 1) = I2C_STATE_IDLE
   \<and> \<not> initialized (fst (snd (i2c_deinit 1 g_i2c_handles_init quiet_world)) ! 1)"
proof -
  have len0: "length g_i2c_handles_init = 2"
    by (simp add: g_i2c_handles_init_def)
  show ?thesis
    using i2c_deinit_resets [of 0 i2c_handles_busy quiet_world]
      i2c_deinit_resets [of 1 g_i2c_handles_init quiet_world] len0
    by (simp add: I2C_INSTANCE_MAX_def handles_busy_simps)
qed

section \<open>I2C: what the asynchronous requests validate\<close>

lemma async_rejects_bad_arguments:
  assumes "data = 0 \<or> cb = 0 \<or> I2C_INSTANCE_MAX \<le> instance \<or> \<not> initialized (hs ! unat instance)"
  shows "snd (i2c_write_async instance a data len cb hs w) = (hs, w)"
    and "fst (i2c_write_async instance a data len cb hs w) \<in> {STATUS_INVALID_PARAM, STATUS_NOT_READY}"
    and "snd (i2c_read_async instance a data len cb hs w) = (hs, w)"
    and "fst (i2c_read_async instance a data len cb hs w) \<in> {STATUS_INVALID_PARAM, STATUS_NOT_READY}"
  using assms by (auto simp add: i2c_write_async_def i2c_read_async_def IS_NULL_PTR_def)

lemma async_rejects_when_busy:
  assumes "data \<noteq> 0" and "cb \<noteq> 0" and "instance < I2C_INSTANCE_MAX"
    and "initialized (hs ! unat instance)" and "state (hs ! unat instance) \<noteq> I2C_STATE_IDLE"
  shows "i2c_write_async instance a data len cb hs w = (STATUS_BUSY, hs, w)"
    and "i2c_read_async instance a data len cb hs w = (STATUS_BUSY, hs, w)"
  using assms valid_instance [OF assms(3)]
  by (simp_all add: i2c_write_async_def i2c_read_async_def IS_NULL_PTR_def)

text \<open>
  Claim C5 (the code departs from it). On the initialised, idle instance 0,
  \<open>i2c_write_async\<close> and \<open>i2c_read_async\<close> called with \<open>len = 0\<close> return \<open>STATUS_OK\<close> and
  move the instance to BusyTx (respectively BusyRx): they have no zero-length check. The
  blocking variants reject the same arguments with \<open>STATUS_INVALID_PARAM\<close> and change
  nothing.
\<close>

theorem async_accepts_zero_length:
  "fst (i2c_write_async 0 0x48 0x20000000 0 0x08000101 i2c_handles_ready quiet_world) = STATUS_OK
   \<and> state (fst (snd (i2c_write_async 0 0x48 0x20000000 0 0x08000101 i2c_handles_ready quiet_world)) ! 0)
       = I2C_STATE_BUSY_TX
   \<and> fst (i2c_read_async 0 0x48 0x20000000 0 0x08000101 i2c_handles_ready quiet_world) = STATUS_OK
   \<and> state (fst (snd (i2c_read_async 0 0x48 0x20000000 0 0x08000101 i2c_handles_ready quiet_world)) ! 0)
       = I2C_STATE_BUSY_RX
   \<and> i2c_write_blocking 0 0x48 0x20000000 0 10 i2c_handles_ready quiet_world
       = (STATUS_INVALID_PARAM, i2c_handles_ready, quiet_world)
   \<and> i2c_read_blocking 0 0x48 0x20000000 0 10 i2c_handles_ready quiet_world
       = (STATUS_INVALID_PARAM, i2c_handles_ready, quiet_world)"
  by (simp add: i2c_write_async_def i2c_read_async_def i2c_write_blocking_def
      i2c_read_blocking_def handles_ready_simps IS_NULL_PTR_def I2C_INSTANCE_MAX_def Let_def)

section \<open>I2C: a transfer request while the instance is not idle\<close>

text \<open>
  Claim C1 (the code departs from it). While an asynchronous read is in flight on instance
  0 (state BusyRx), \<open>i2c_write_blocking\<close> and \<open>i2c_read_blocking\<close> do not return
  \<open>STATUS_BUSY\<close>: they have no state check, overwrite the state, run the transfer and
  return \<open>STATUS_OK\<close> with the instance in Idle. The asynchronous requests on the same
  handle do return \<open>STATUS_BUSY\<close> and leave handle and hardware untouched.
\<close>

theorem blocking_ignores_busy_state:
  "state (i2c_handles_busy ! 0) = I2C_STATE_BUSY_RX
   \<and> fst (i2c_write_blocking 0 0x50 0x20000100 1 10 i2c_handles_busy ready_world) = STATUS_OK
   \<and> state (fst (snd (i2c_write_blocking 0 0x50 0x20000100 1 10 i2c_handles_busy ready_world)) ! 0)
       = I2C_STATE_IDLE
   \<and> fst (i2c_read_blocking 0 0x50 0x20000100 1 10 i2c_handles_busy ready_world) = STATUS_OK
   \<and> state (fst (snd (i2c_read_blocking 0 0x50 0x20000100 1 10 i2c_handles_busy ready_world)) ! 0)
       = I2C_STATE_IDLE
   \<and> i2c_write_async 0 0x50 0x20000100 1 0x08000201 i2c_handles_busy ready_world
       = (STATUS_BUSY, i2c_handles_busy, ready_world)
   \<and> i2c_read_async 0 0x50 0x20000100 1 0x08000201 i2c_handles_busy ready_world
       = (STATUS_BUSY, i2c_handles_busy, ready_world)"
proof (intro conjI)
  show "state (i2c_handles_busy ! 0) = I2C_STATE_BUSY_RX"
    by (simp add: handles_busy_simps)
  show "fst (i2c_write_blocking 0 0x50 0x20000100 1 10 i2c_handles_busy ready_world) = STATUS_OK"
    by (simp add: i2c_write_blocking_def ready_world_def i2c_eval split_def)
  show "state (fst (snd (i2c_write_blocking 0 0x50 0x20000100 1 10 i2c_handles_busy ready_world)) ! 0)
       = I2C_STATE_IDLE"
    by (simp add: i2c_write_blocking_def ready_world_def i2c_eval split_def)
  show "fst (i2c_read_blocking 0 0x50 0x20000100 1 10 i2c_handles_busy ready_world) = STATUS_OK"
    by (simp add: i2c_read_blocking_def ready_world_def i2c_eval split_def)
  show "state (fst (snd (i2c_read_blocking 0 0x50 0x20000100 1 10 i2c_handles_busy ready_world)) ! 0)
       = I2C_STATE_IDLE"
    by (simp add: i2c_read_blocking_def ready_world_def i2c_eval split_def)
  show "i2c_write_async 0 0x50 0x20000100 1 0x08000201 i2c_handles_busy ready_world
       = (STATUS_BUSY, i2c_handles_busy, ready_world)"
    by (simp add: i2c_write_async_def handles_busy_simps IS_NULL_PTR_def I2C_INSTANCE_MAX_def)
  show "i2c_read_async 0 0x50 0x20000100 1 0x08000201 i2c_handles_busy ready_world
       = (STATUS_BUSY, i2c_handles_busy, ready_world)"
    by (simp add: i2c_read_async_def handles_busy_simps IS_NULL_PTR_def I2C_INSTANCE_MAX_def)
qed

section \<open>I2C: the last byte of a read\<close>

text \<open>
  The blocking read of one byte, on a controller that is ready, clears ACK once and issues
  STOP once (both at \<open>i = len - 1 = 0\<close>, before the byte is read).
\<close>

lemma blocking_single_byte_read_stops_once:
  "fst (i2c_read_blocking 0 0x48 0x20000000 1 10 i2c_handles_ready ready_world) = STATUS_OK
   \<and> ack_clears I2C0_BASE
        (trace (snd (snd (i2c_read_blocking 0 0x48 0x20000000 1 10 i2c_handles_ready
                            ready_world)))) = 1
   \<and> stops I2C0_BASE
        (trace (snd (snd (i2c_read_blocking 0 0x48 0x20000000 1 10 i2c_handles_ready
                            ready_world)))) = 1"
  by (simp add: i2c_read_blocking_def ready_world_def i2c_eval split_def stops_snoc
      ack_clears_snoc BIT_SET_def BIT_CLEAR_def emit_def reg_read_def reg_write_def)

lemma single_byte_read_eval:
  "single_byte_read =
     (i2c_handles_ready
        [0 := \<lparr>regs = I2C0_BASE, state = I2C_STATE_IDLE, rx_buffer = 0x20000000,
               tx_buffer = 0, buffer_len = 1, buffer_idx = 1, dev_address = 0x48,
               callback = 0x08000101, initialized = True\<rparr>],
      \<lparr>device = device single_byte_world, clock = 5,
        trace = [SetBit (I2C0_BASE + CR1) I2C_CR1_ACK, SetBit (I2C0_BASE + CR1) I2C_CR1_START,
                 Rd (I2C0_BASE + SR1), Wr (I2C0_BASE + DR) 0x91,
                 Rd (I2C0_BASE + SR1), Rd (I2C0_BASE + SR2),
                 ClrBit (I2C0_BASE + CR1) I2C_CR1_ACK,
                 Rd (I2C0_BASE + SR1), Rd (I2C0_BASE + DR),
                 I2cCallback 0x08000101 0 STATUS_OK],
        ram = (\<lambda>a. 0)(0x20000000 := 0x5A)\<rparr>)"
  by (simp add: single_byte_read_def i2c_read_async_def i2c_irq_handler_def handles_ready_simps
      IS_NULL_PTR_def IS_VALID_PTR_def I2C_INSTANCE_MAX_def Let_def i2c_generate_start_def
      i2c_generate_stop_def SR1_def SR2_def I2C0_BASE_def PERIPH_BASE_def single_byte_world_def
      BIT_CHECK_def i2c_invoke_callback_def I2C_SR1_SB_def I2C_SR1_ADDR_def I2C_SR1_TXE_def
      I2C_SR1_BTF_def I2C_SR1_RXNE_def I2C_SR1_AF_def reg_read_def emit_def BIT_SET_def
      BIT_CLEAR_def reg_write_def I2C_CR1_ACK_def I2C_CR1_START_def I2C_CR1_STOP_def CR1_def
      DR_def addr_byte_def)

text \<open>
  Claim C2 (the code departs from it). An asynchronous read of length 1 on instance 0,
  driven through its three interrupts (start sent, address acknowledged, receiver not
  empty), ends with the byte stored, the state back to Idle and the callback called with
  \<open>STATUS_OK\<close>; ACK was cleared once, in the address branch, but STOP was never issued.
  The receive branch compares the index after its increment, 1, with \<open>buffer_len - 1 = 0\<close>.
\<close>

theorem async_single_byte_read_never_stops:
  "state (fst single_byte_read ! 0) = I2C_STATE_IDLE
   \<and> buffer_idx (fst single_byte_read ! 0) = 1
   \<and> buffer_len (fst single_byte_read ! 0) = 1
   \<and> ram (snd single_byte_read) 0x20000000 = 0x5A
   \<and> last (trace (snd single_byte_read)) = I2cCallback 0x08000101 0 STATUS_OK
   \<and> ack_clears I2C0_BASE (trace (snd single_byte_read)) = 1
   \<and> stops I2C0_BASE (trace (snd single_byte_read)) = 0"
  by (simp add: single_byte_read_eval handles_ready_simps stops_snoc ack_clears_snoc)

section \<open>I2C: blocking transfers, their waits and their STOP conditions\<close>

text \<open>
  A bounded wait is exhausted exactly when every one of its polls misses: the flag wait
  returns \<open>STATUS_TIMEOUT\<close> iff none of its \<open>timeout * TIMEOUT_LOOP_COUNT\<close> reads of
  \<open>SR1\<close> shows the flag as expected, and the bus-free wait ends with its counter at 0 iff
  every read of \<open>SR2\<close> shows BUSY.
\<close>

lemma i2c_wait_loop_timeout_iff:
  "fst (i2c_wait_loop r flag expected n w) = STATUS_TIMEOUT \<longleftrightarrow>
     (\<forall>k < n. BIT_CHECK (device w (r + SR1) (clock w + k)) flag \<noteq> expected)"
proof (induction n arbitrary: w)
  case 0
  then show ?case by simp
next
  case (Suc n)
  show ?case
  proof (cases "BIT_CHECK (device w (r + SR1) (clock w)) flag = expected")
    case True
    then have "fst (i2c_wait_loop r flag expected (Suc n) w) = STATUS_OK"
      by (simp add: split_def)
    moreover from True have "\<not> (\<forall>k < Suc n. BIT_CHECK (device w (r + SR1) (clock w + k)) flag \<noteq> expected)"
      by (auto intro: exI [of _ 0])
    ultimately show ?thesis by simp
  next
    case False
    then have "fst (i2c_wait_loop r flag expected (Suc n) w)
        = fst (i2c_wait_loop r flag expected n (snd (reg_read (r + SR1) w)))"
      by (simp add: split_def)
    also have "\<dots> = STATUS_TIMEOUT \<longleftrightarrow>
        (\<forall>k < n. BIT_CHECK (device w (r + SR1) (Suc (clock w + k))) flag \<noteq> expected)"
      using Suc.IH [of "snd (reg_read (r + SR1) w)"] by simp
    also have "\<dots> \<longleftrightarrow> (\<forall>k < Suc n. BIT_CHECK (device w (r + SR1) (clock w + k)) flag \<noteq> expected)"
      using False by (auto simp add: less_Suc_eq_0_disj)
    finally show ?thesis .
  qed
qed

lemma i2c_wait_flag_timeout_iff:
  "fst (i2c_wait_flag r flag expected tmo w) = STATUS_TIMEOUT \<longleftrightarrow>
     (\<forall>k < unat (tmo * TIMEOUT_LOOP_COUNT).
        BIT_CHECK (device w (r + SR1) (clock w + k)) flag \<noteq> expected)"
  by (simp add: i2c_wait_flag_def i2c_wait_loop_timeout_iff)

lemma bus_free_wait_exhausted_iff:
  "fst (bus_free_wait r n w) = 0 \<longleftrightarrow>
     (\<forall>k < n. BIT_CHECK (device w (r + SR2) (clock w + k)) I2C_SR2_BUSY)"
proof (induction n arbitrary: w)
  case 0
  then show ?case by simp
next
  case (Suc n)
  show ?case
  proof (cases "BIT_CHECK (device w (r + SR2) (clock w)) I2C_SR2_BUSY")
    case False
    then have "fst (bus_free_wait r (Suc n) w) = Suc n"
      by (simp add: split_def)
    moreover from False have "\<not> (\<forall>k < Suc n. BIT_CHECK (device w (r + SR2) (clock w + k)) I2C_SR2_BUSY)"
      by (auto intro: exI [of _ 0])
    ultimately show ?thesis by simp
  next
    case True
    then have "fst (bus_free_wait r (Suc n) w)
        = fst (bus_free_wait r n (snd (reg_read (r + SR2) w)))"
      by (simp add: split_def)
    also have "\<dots> = 0 \<longleftrightarrow>
        (\<forall>k < n. BIT_CHECK (device w (r + SR2) (Suc (clock w + k))) I2C_SR2_BUSY)"
      using Suc.IH [of "snd (reg_read (r + SR2) w)"] by simp
    also have "\<dots> \<longleftrightarrow> (\<forall>k < Suc n. BIT_CHECK (device w (r + SR2) (clock w + k)) I2C_SR2_BUSY)"
      using True by (auto simp add: less_Suc_eq_0_disj)
    finally show ?thesis .
  qed
qed

lemma i2c_wait_loop_result:
  "fst (i2c_wait_loop r flag expected n w) = STATUS_OK
   \<or> fst (i2c_wait_loop r flag expected n w) = STATUS_TIMEOUT"
  by (induction n arbitrary: w) (simp_all add: split_def Let_def)

lemma i2c_wait_loop_stops:
  "stops r' (trace (snd (i2c_wait_loop r flag expected n w))) = stops r' (trace w)"
  by (induction n arbitrary: w) (simp_all add: split_def Let_def stops_snoc)

lemma i2c_wait_flag_result:
  "fst (i2c_wait_flag r flag expected tmo w) = STATUS_OK
   \<or> fst (i2c_wait_flag r flag expected tmo w) = STATUS_TIMEOUT"
  by (simp add: i2c_wait_flag_def i2c_wait_loop_result)

lemma i2c_wait_flag_stops:
  "stops r' (trace (snd (i2c_wait_flag r flag expected tmo w))) = stops r' (trace w)"
  by (simp add: i2c_wait_flag_def i2c_wait_loop_stops)

lemma i2c_wait_flag_acks:
  "ack_clears r' (trace (snd (i2c_wait_flag r flag expected tmo w))) = ack_clears r' (trace w)"
proof -
  have "ack_clears r' (trace (snd (i2c_wait_loop r flag expected n w))) = ack_clears r' (trace w)"
    for n
    by (induction n arbitrary: w) (simp_all add: split_def Let_def ack_clears_snoc)
  then show ?thesis by (simp add: i2c_wait_flag_def)
qed

lemma i2c_send_address_result:
  "fst (i2c_send_address r addr dir tmo w) = STATUS_OK
   \<or> fst (i2c_send_address r addr dir tmo w) = STATUS_TIMEOUT"
  using i2c_wait_flag_result [of r I2C_SR1_SB True tmo w]
    i2c_wait_flag_result [of r I2C_SR1_ADDR True tmo
      "reg_write (r + DR) (ucast (addr_byte addr dir)) (snd (i2c_wait_flag r I2C_SR1_SB True tmo w))"]
  by (auto simp add: i2c_send_address_def split_def Let_def)

lemma i2c_send_address_stops:
  "stops r' (trace (snd (i2c_send_address r addr dir tmo w))) = stops r' (trace w)"
  by (simp add: i2c_send_address_def split_def Let_def stops_snoc i2c_wait_flag_stops)

lemma bus_free_wait_stops:
  "stops r' (trace (snd (bus_free_wait r n w))) = stops r' (trace w)"
  by (induction n arbitrary: w) (simp_all add: split_def Let_def stops_snoc)

lemma bus_free_wait_stuck:
  "(\<And>k. BIT_CHECK (device w (r + SR2) k) I2C_SR2_BUSY) \<Longrightarrow> fst (bus_free_wait r n w) = 0"
  by (induction n arbitrary: w) (simp_all add: split_def Let_def)

lemma stuck_bus_exhausts: "fst (bus_free_wait I2C0_BASE n stuck_bus_world) = 0"
  by (rule bus_free_wait_stuck) (simp add: stuck_bus_world_def BIT_CHECK_def I2C_SR2_BUSY_def)

lemma tx_loop_result:
  "fst (tx_loop r data tmo i len w) = STATUS_OK \<or> fst (tx_loop r data tmo i len w) = STATUS_TIMEOUT"
proof (induction r data tmo i len w rule: tx_loop.induct)
  case (1 r data tmo i len w)
  obtain res w1 where wf: "i2c_wait_flag r I2C_SR1_TXE True tmo w = (res, w1)"
    by (cases "i2c_wait_flag r I2C_SR1_TXE True tmo w")
  note IH = 1 [OF _ refl wf [symmetric]]
  from i2c_wait_flag_result [of r I2C_SR1_TXE True tmo w] wf
  have res: "res = STATUS_OK \<or> res = STATUS_TIMEOUT" by simp
  show ?case
  proof (cases "i < len \<and> res = STATUS_OK")
    case True
    then show ?thesis using IH wf by (subst (1 2) tx_loop.simps) simp
  next
    case False
    then show ?thesis using res wf by (subst (1 2) tx_loop.simps) auto
  qed
qed

lemma tx_loop_stops:
  "stops r' (trace (snd (tx_loop r data tmo i len w))) = stops r' (trace w)"
proof (induction r data tmo i len w rule: tx_loop.induct)
  case (1 r data tmo i len w)
  obtain res w1 where wf: "i2c_wait_flag r I2C_SR1_TXE True tmo w = (res, w1)"
    by (cases "i2c_wait_flag r I2C_SR1_TXE True tmo w")
  note IH = 1 [OF _ refl wf [symmetric]]
  from i2c_wait_flag_stops [of r' r I2C_SR1_TXE True tmo w] wf
  have st: "stops r' (trace w1) = stops r' (trace w)" by simp
  show ?case
  proof (cases "i < len \<and> res = STATUS_OK")
    case True
    then show ?thesis using IH wf st by (subst tx_loop.simps) (simp add: stops_snoc)
  next
    case False
    then show ?thesis using st wf by (subst tx_loop.simps) auto
  qed
qed

lemma rx_loop_unfold:
  assumes "w0 = (if i = len - 1
      then i2c_generate_stop r (BIT_CLEAR (r + CR1) I2C_CR1_ACK w) else w)"
    and "i2c_wait_flag r I2C_SR1_RXNE True tmo w0 = (res, w2)"
    and "reg_read (r + DR) w2 = (dr, w3)"
    and "w4 = w3\<lparr>ram := (ram w3)(data + of_nat i := ucast dr)\<rparr>"
  shows "rx_loop r data tmo i len w =
      (if i < len then (if res = STATUS_OK then rx_loop r data tmo (Suc i) len w4 else (res, w2))
       else (STATUS_OK, w))"
  by (subst rx_loop.simps)
     (simp only: Let_def assms(1) [symmetric] assms(2) assms(3) assms(4) [symmetric]
        case_prod_conv)

lemma rx_loop_result:
  "fst (rx_loop r data tmo i len w) = STATUS_OK \<or> fst (rx_loop r data tmo i len w) = STATUS_TIMEOUT"
proof (induction r data tmo i len w rule: rx_loop.induct)
  case (1 r data tmo i len w)
  define w0 where "w0 = (if i = len - 1
      then i2c_generate_stop r (BIT_CLEAR (r + CR1) I2C_CR1_ACK w) else w)"
  obtain res w2 where wf: "i2c_wait_flag r I2C_SR1_RXNE True tmo w0 = (res, w2)"
    by (cases "i2c_wait_flag r I2C_SR1_RXNE True tmo w0")
  obtain dr w3 where rd: "reg_read (r + DR) w2 = (dr, w3)"
    by (cases "reg_read (r + DR) w2")
  define w4 where "w4 = w3\<lparr>ram := (ram w3)(data + of_nat i := ucast dr)\<rparr>"
  note IH = 1 [OF _ w0_def refl wf [symmetric] _ refl rd [symmetric], folded w4_def]
  note unf = rx_loop_unfold [OF w0_def wf rd w4_def]
  from i2c_wait_flag_result [of r I2C_SR1_RXNE True tmo w0] wf
  have res: "res = STATUS_OK \<or> res = STATUS_TIMEOUT" by simp
  show ?case
  proof (cases "i < len \<and> res = STATUS_OK")
    case True
    then show ?thesis using IH by (simp add: unf)
  next
    case False
    then show ?thesis using res by (auto simp add: unf)
  qed
qed

lemma rx_loop_stops:
  "i < len \<Longrightarrow> fst (rx_loop r data tmo i len w) = STATUS_OK \<Longrightarrow>
     stops r (trace (snd (rx_loop r data tmo i len w))) = Suc (stops r (trace w))
     \<and> ack_clears r (trace (snd (rx_loop r data tmo i len w))) = Suc (ack_clears r (trace w))"
proof (induction r data tmo i len w rule: rx_loop.induct)
  case (1 r data tmo i len w)
  define w0 where "w0 = (if i = len - 1
      then i2c_generate_stop r (BIT_CLEAR (r + CR1) I2C_CR1_ACK w) else w)"
  obtain res w2 where wf: "i2c_wait_flag r I2C_SR1_RXNE True tmo w0 = (res, w2)"
    by (cases "i2c_wait_flag r I2C_SR1_RXNE True tmo w0")
  obtain dr w3 where rd: "reg_read (r + DR) w2 = (dr, w3)"
    by (cases "reg_read (r + DR) w2")
  define w4 where "w4 = w3\<lparr>ram := (ram w3)(data + of_nat i := ucast dr)\<rparr>"
  note IH = 1(1) [OF _ w0_def refl wf [symmetric] _ refl rd [symmetric], folded w4_def]
  have unf: "rx_loop r data tmo i len w =
      (if res = STATUS_OK then rx_loop r data tmo (Suc i) len w4 else (res, w2))"
    using \<open>i < len\<close> by (simp add: rx_loop_unfold [OF w0_def wf rd w4_def])
  from 1(3) unf have ok: "res = STATUS_OK"
    by (cases "res = STATUS_OK") simp_all
  from unf ok have unf2: "rx_loop r data tmo i len w = rx_loop r data tmo (Suc i) len w4"
    by simp
  have "trace w3 = trace w2 @ [Rd (r + DR)]"
    using rd reg_read_simps(4) [of "r + DR" w2] by simp
  then have tr4: "trace w4 = trace w2 @ [Rd (r + DR)]"
    by (simp add: w4_def)
  have st2: "stops r (trace w2) = stops r (trace w0)"
    using i2c_wait_flag_stops [of r r I2C_SR1_RXNE True tmo w0] wf by simp
  have ac2: "ack_clears r (trace w2) = ack_clears r (trace w0)"
    using i2c_wait_flag_acks [of r r I2C_SR1_RXNE True tmo w0] wf by simp
  have st4: "stops r (trace w4) = stops r (trace w0)"
    by (simp add: tr4 stops_snoc st2)
  have ac4: "ack_clears r (trace w4) = ack_clears r (trace w0)"
    by (simp add: tr4 ack_clears_snoc ac2)
  show ?case
  proof (cases "Suc i < len")
    case True
    then have w0: "w0 = w" by (simp add: w0_def)
    from 1(3) unf2 have "fst (rx_loop r data tmo (Suc i) len w4) = STATUS_OK" by simp
    from IH [OF \<open>i < len\<close> ok True this] show ?thesis
      by (simp add: unf2 st4 ac4 w0)
  next
    case False
    with \<open>i < len\<close> have "i = len - 1" by simp
    then have w0: "w0 = i2c_generate_stop r (BIT_CLEAR (r + CR1) I2C_CR1_ACK w)"
      by (simp add: w0_def)
    from False have "rx_loop r data tmo (Suc i) len w4 = (STATUS_OK, w4)"
      by (subst rx_loop.simps) simp
    then show ?thesis
      by (simp add: unf2 st4 ac4 w0 stops_snoc ack_clears_snoc
          I2C_CR1_ACK_def I2C_CR1_STOP_def)
  qed
qed

lemma write_blocking_bus_busy:
  assumes "data \<noteq> 0" and "instance < I2C_INSTANCE_MAX" and "length hs = 2"
    and "initialized (hs ! unat instance)" and "len \<noteq> 0"
    and "fst (bus_free_wait (regs (hs ! unat instance)) (unat (tmo * TIMEOUT_LOOP_COUNT)) w) = 0"
  shows "fst (i2c_write_blocking instance a data len tmo hs w) = STATUS_BUSY"
    and "stops (regs (hs ! unat instance))
           (trace (snd (snd (i2c_write_blocking instance a data len tmo hs w))))
           = stops (regs (hs ! unat instance)) (trace w)"
    and "state (fst (snd (i2c_write_blocking instance a data len tmo hs w)) ! unat instance)
           = I2C_STATE_ERROR"
  using assms valid_instance [OF assms(2)]
  by (simp_all add: i2c_write_blocking_def IS_NULL_PTR_def split_def Let_def bus_free_wait_stops)

lemma write_blocking_bus_free:
  assumes "data \<noteq> 0" and "instance < I2C_INSTANCE_MAX" and "length hs = 2"
    and "initialized (hs ! unat instance)" and "len \<noteq> 0"
    and "fst (bus_free_wait (regs (hs ! unat instance)) (unat (tmo * TIMEOUT_LOOP_COUNT)) w) \<noteq> 0"
  shows "fst (i2c_write_blocking instance a data len tmo hs w) = STATUS_OK
         \<or> fst (i2c_write_blocking instance a data len tmo hs w) = STATUS_TIMEOUT"
    and "stops (regs (hs ! unat instance))
           (trace (snd (snd (i2c_write_blocking instance a data len tmo hs w))))
           = Suc (stops (regs (hs ! unat instance)) (trace w))"
    and "state (fst (snd (i2c_write_blocking instance a data len tmo hs w)) ! unat instance)
           = (if fst (i2c_write_blocking instance a data len tmo hs w) = STATUS_OK
              then I2C_STATE_IDLE else I2C_STATE_ERROR)"
proof -
  let ?r = "regs (hs ! unat instance)"
  define w1 where "w1 = snd (bus_free_wait ?r (unat (tmo * TIMEOUT_LOOP_COUNT)) w)"
  define w3 where "w3 = i2c_generate_start ?r w1"
  define sa where "sa = i2c_send_address ?r a I2C_DIR_WRITE tmo w3"
  define tx where "tx = tx_loop ?r data tmo 0 (unat len) (snd sa)"
  define bt where "bt = i2c_wait_flag ?r I2C_SR1_BTF True tmo (snd tx)"
  define body where "body =
    (if fst sa = STATUS_OK then (if fst tx = STATUS_OK then bt else tx) else sa)"
  have unf: "i2c_write_blocking instance a data len tmo hs w =
      (fst body,
       hs[unat instance := (hs ! unat instance)
          \<lparr>state := (if fst body = STATUS_OK then I2C_STATE_IDLE else I2C_STATE_ERROR)\<rparr>],
       i2c_generate_stop ?r (snd body))"
    using assms valid_instance [OF assms(2)]
    by (simp add: i2c_write_blocking_def IS_NULL_PTR_def split_def Let_def body_def bt_def
        tx_def sa_def w3_def w1_def)
  have res: "fst body = STATUS_OK \<or> fst body = STATUS_TIMEOUT"
    using i2c_send_address_result [of ?r a I2C_DIR_WRITE tmo w3]
      tx_loop_result [of ?r data tmo 0 "unat len" "snd sa"]
      i2c_wait_flag_result [of ?r I2C_SR1_BTF True tmo "snd tx"]
    by (auto simp add: body_def sa_def tx_def bt_def)
  have st: "stops ?r (trace (snd body)) = stops ?r (trace w)"
    by (simp add: body_def bt_def tx_def sa_def w3_def w1_def i2c_wait_flag_stops
        tx_loop_stops i2c_send_address_stops bus_free_wait_stops stops_snoc)
  show "fst (i2c_write_blocking instance a data len tmo hs w) = STATUS_OK
         \<or> fst (i2c_write_blocking instance a data len tmo hs w) = STATUS_TIMEOUT"
    using res by (simp add: unf)
  show "stops ?r (trace (snd (snd (i2c_write_blocking instance a data len tmo hs w))))
           = Suc (stops ?r (trace w))"
    by (simp add: unf st stops_snoc)
  show "state (fst (snd (i2c_write_blocking instance a data len tmo hs w)) ! unat instance)
           = (if fst (i2c_write_blocking instance a data len tmo hs w) = STATUS_OK
              then I2C_STATE_IDLE else I2C_STATE_ERROR)"
    using assms(3) valid_instance [OF assms(2)] by (simp add: unf)
qed

lemma read_blocking_outcome:
  assumes "data \<noteq> 0" and "instance < I2C_INSTANCE_MAX" and "length hs = 2"
    and "initialized (hs ! unat instance)" and "len \<noteq> 0"
  shows "fst (i2c_read_blocking instance a data len tmo hs w) = STATUS_OK
         \<or> fst (i2c_read_blocking instance a data len tmo hs w) = STATUS_TIMEOUT"
    and "state (fst (snd (i2c_read_blocking instance a data len tmo hs w)) ! unat instance)
           = (if fst (i2c_read_blocking instance a data len tmo hs w) = STATUS_OK
              then I2C_STATE_IDLE else I2C_STATE_ERROR)"
    and "fst (i2c_read_blocking instance a data len tmo hs w) = STATUS_OK \<Longrightarrow>
         stops (regs (hs ! unat instance))
           (trace (snd (snd (i2c_read_blocking instance a data len tmo hs w))))
           = Suc (stops (regs (hs ! unat instance)) (trace w))"
    and "fst (i2c_send_address (regs (hs ! unat instance)) a I2C_DIR_READ tmo
            (i2c_generate_start (regs (hs ! unat instance))
               (BIT_SET (regs (hs ! unat instance) + CR1) I2C_CR1_ACK w))) \<noteq> STATUS_OK \<Longrightarrow>
         fst (i2c_read_blocking instance a data len tmo hs w) = STATUS_TIMEOUT \<and>
         stops (regs (hs ! unat instance))
           (trace (snd (snd (i2c_read_blocking instance a data len tmo hs w))))
           = Suc (stops (regs (hs ! unat instance)) (trace w))"
proof -
  let ?r = "regs (hs ! unat instance)"
  define w2 where "w2 = i2c_generate_start ?r (BIT_SET (?r + CR1) I2C_CR1_ACK w)"
  define sa where "sa = i2c_send_address ?r a I2C_DIR_READ tmo w2"
  define rx where "rx = rx_loop ?r data tmo 0 (unat len) (snd sa)"
  define body where "body =
    (if fst sa = STATUS_OK then rx else (fst sa, i2c_generate_stop ?r (snd sa)))"
  have unf: "i2c_read_blocking instance a data len tmo hs w =
      (fst body,
       hs[unat instance := (hs ! unat instance)
          \<lparr>state := (if fst body = STATUS_OK then I2C_STATE_IDLE else I2C_STATE_ERROR)\<rparr>],
       snd body)"
    using assms valid_instance [OF assms(2)]
    by (simp add: i2c_read_blocking_def IS_NULL_PTR_def split_def Let_def body_def
        rx_def sa_def w2_def)
  have len: "0 < unat len" using assms(5) by (simp add: unat_gt_0)
  have st2: "stops ?r (trace (snd sa)) = stops ?r (trace w)"
    by (simp add: sa_def w2_def i2c_send_address_stops stops_snoc)
  have res: "fst body = STATUS_OK \<or> fst body = STATUS_TIMEOUT"
    using i2c_send_address_result [of ?r a I2C_DIR_READ tmo w2]
      rx_loop_result [of ?r data tmo 0 "unat len" "snd sa"]
    by (auto simp add: body_def sa_def rx_def)
  show "fst (i2c_read_blocking instance a data len tmo hs w) = STATUS_OK
         \<or> fst (i2c_read_blocking instance a data len tmo hs w) = STATUS_TIMEOUT"
    using res by (simp add: unf)
  show "state (fst (snd (i2c_read_blocking instance a data len tmo hs w)) ! unat instance)
           = (if fst (i2c_read_blocking instance a data len tmo hs w) = STATUS_OK
              then I2C_STATE_IDLE else I2C_STATE_ERROR)"
    using assms(3) valid_instance [OF assms(2)] by (simp add: unf)
  show "stops ?r (trace (snd (snd (i2c_read_blocking instance a data len tmo hs w))))
           = Suc (stops ?r (trace w))"
    if ok: "fst (i2c_read_blocking instance a data len tmo hs w) = STATUS_OK"
  proof -
    from ok have b: "fst body = STATUS_OK" by (simp add: unf)
    then have sa_ok: "fst sa = STATUS_OK"
      by (cases "fst sa = STATUS_OK") (simp_all add: body_def)
    with b have "fst rx = STATUS_OK" by (simp add: body_def)
    from rx_loop_stops [OF len this [unfolded rx_def]] sa_ok
    show ?thesis by (simp add: unf body_def rx_def st2)
  qed
  show "fst (i2c_read_blocking instance a data len tmo hs w) = STATUS_TIMEOUT \<and>
         stops ?r (trace (snd (snd (i2c_read_blocking instance a data len tmo hs w))))
           = Suc (stops ?r (trace w))"
    if bad: "fst (i2c_send_address ?r a I2C_DIR_READ tmo
            (i2c_generate_start ?r (BIT_SET (?r + CR1) I2C_CR1_ACK w))) \<noteq> STATUS_OK"
  proof -
    from bad have "fst sa \<noteq> STATUS_OK" by (simp add: sa_def w2_def)
    moreover from this i2c_send_address_result [of ?r a I2C_DIR_READ tmo w2]
    have "fst sa = STATUS_TIMEOUT" by (simp add: sa_def)
    ultimately show ?thesis by (simp add: unf body_def st2 stops_snoc)
  qed
qed

lemma transfer_args_valid:
  "(0x20000100 :: ptr_t) \<noteq> 0" "(0 :: u32_t) < I2C_INSTANCE_MAX" "length i2c_handles_ready = 2"
  "initialized (i2c_handles_ready ! unat (0 :: u32_t))" "(1 :: u32_t) \<noteq> 0"
  "regs (i2c_handles_ready ! unat (0 :: u32_t)) = I2C0_BASE"
  by (simp_all add: I2C_INSTANCE_MAX_def handles_ready_simps)




section \<open>BLE: the circular event queue\<close>

lemma unat_u8_lt: "unat (i :: u8_t) < 256"
  using unsigned_less [of i, where 'a = nat] by simp

lemma unat_ucast_u8_u32: "unat (ucast (i :: u8_t) :: u32_t) = unat i"
proof -
  have "unat i < 2 ^ 32" using unat_u8_lt [of i] by simp
  then show ?thesis
    by (simp add: unsigned_ucast_eq take_bit_nat_eq_self)
qed

lemma unat_ucast_u32_u8: "unat (x :: u32_t) < 256 \<Longrightarrow> unat (ucast x :: u8_t) = unat x"
  by (simp add: unsigned_ucast_eq take_bit_nat_eq_self)

lemma unat_next_index: "unat (next_index i) = (unat i + 1) mod 8"
proof -
  have "unat i + 1 < 2 ^ 32" using unat_u8_lt [of i] by simp
  then have a: "unat ((ucast i :: u32_t) + 1) = unat i + 1"
    by (simp add: unat_word_ariths unat_ucast_u8_u32)
  have b: "unat (((ucast i :: u32_t) + 1) mod BLE_EVENT_QUEUE_SIZE) = (unat i + 1) mod 8"
    using a by (simp add: BLE_EVENT_QUEUE_SIZE_def unat_mod)
  have "(unat i + 1) mod 8 < 256" by (rule less_trans [OF mod_less_divisor]) simp_all
  with b show ?thesis
    unfolding next_index_def by (simp add: unat_ucast_u32_u8)
qed

lemma below_8: "(k :: nat) < 8 \<Longrightarrow> k \<in> {0, 1, 2, 3, 4, 5, 6, 7}"
  by (simp, arith)

lemma ring_head:
  assumes "h < 8" and "t < 8" shows "(t + (h + 8 - t) mod 8) mod 8 = (h :: nat)"
  using below_8 [OF assms(1)] below_8 [OF assms(2)] by (elim insertE emptyE; simp)

lemma ring_before_head:
  assumes "h < 8" and "t < 8" and "k < (h + 8 - t) mod 8" shows "(t + k) mod 8 \<noteq> (h :: nat)"
  using below_8 [OF assms(1)] below_8 [OF assms(2)] assms(3) by (elim insertE emptyE; simp; arith)

lemma ring_count_enqueue:
  assumes "h < 8" and "t < 8" and "(h + 1) mod 8 \<noteq> t"
  shows "((h + 1) mod 8 + 8 - t) mod 8 = Suc ((h + 8 - t) mod 8)"
  using below_8 [OF assms(1)] below_8 [OF assms(2)] assms(3) by (elim insertE emptyE; simp)

lemma ring_count_dequeue:
  assumes "h < 8" and "t < 8" and "t \<noteq> h"
  shows "(h + 8 - t) mod 8 = Suc ((h + 8 - (t + 1) mod 8) mod 8)"
  using below_8 [OF assms(1)] below_8 [OF assms(2)] assms(3) by (elim insertE emptyE; simp)

lemma ring_shift: "((t + 1) mod 8 + k) mod 8 = (t + Suc k) mod (8 :: nat)"
  by (simp add: mod_add_left_eq)

lemma ring_full:
  assumes "h < 8" and "t < 8" shows "((h + 1) mod 8 = t) = ((h + 8 - t) mod 8 = (7 :: nat))"
  using below_8 [OF assms(1)] below_8 [OF assms(2)] by (elim insertE emptyE; simp)

lemma ring_empty:
  assumes "h < 8" and "t < 8" shows "(h = t) = ((h + 8 - t) mod 8 = (0 :: nat))"
  using below_8 [OF assms(1)] below_8 [OF assms(2)] by (elim insertE emptyE; simp)

lemma full_iff:
  "ble_handle_ok g \<Longrightarrow>
     (next_index (evt_queue_head g) = evt_queue_tail g) = (queue_count g = 7)"
  using ring_full [of "unat (evt_queue_head g)" "unat (evt_queue_tail g)"]
  by (simp add: ble_handle_ok_def word_unat_eq_iff unat_next_index queue_count_def
      del: One_nat_def)

lemma queue_empty_iff:
  "ble_handle_ok g \<Longrightarrow> (evt_queue_head g = evt_queue_tail g) = (queue_count g = 0)"
  using ring_empty [of "unat (evt_queue_head g)" "unat (evt_queue_tail g)"]
  by (simp add: ble_handle_ok_def word_unat_eq_iff queue_count_def)

lemma enqueue_ok:
  assumes "ble_handle_ok g" and "queue_count g < 7"
  shows "fst (ble_enqueue_event e g) = STATUS_OK"
    and "ble_handle_ok (snd (ble_enqueue_event e g))"
    and "queue_count (snd (ble_enqueue_event e g)) = Suc (queue_count g)"
    and "queued (snd (ble_enqueue_event e g)) = queued g @ [e]"
proof -
  let ?h = "unat (evt_queue_head g)" and ?t = "unat (evt_queue_tail g)"
  from assms(1) have h: "?h < 8" and t: "?t < 8" and len: "length (event_queue g) = 8"
    by (simp_all add: ble_handle_ok_def)
  from assms have nf: "next_index (evt_queue_head g) \<noteq> evt_queue_tail g"
    by (simp add: full_iff)
  then have nf': "(?h + 1) mod 8 \<noteq> ?t"
    by (simp add: word_unat_eq_iff unat_next_index del: One_nat_def)
  have unf: "ble_enqueue_event e g =
      (STATUS_OK, g\<lparr>event_queue := (event_queue g)[?h := e],
                     evt_queue_head := next_index (evt_queue_head g)\<rparr>)"
    using nf by (simp add: ble_enqueue_event_def Let_def)
  show "fst (ble_enqueue_event e g) = STATUS_OK" by (simp add: unf)
  show "ble_handle_ok (snd (ble_enqueue_event e g))"
    using assms(1) by (simp add: unf ble_handle_ok_def unat_next_index del: One_nat_def)
  show cnt: "queue_count (snd (ble_enqueue_event e g)) = Suc (queue_count g)"
    using ring_count_enqueue [OF h t nf']
    by (simp add: unf queue_count_def unat_next_index del: One_nat_def)
  have old: "map (\<lambda>k. (event_queue g)[?h := e] ! ((?t + k) mod 8)) [0..<queue_count g]
      = queued g"
    unfolding queued_def
  proof (rule map_cong [OF refl])
    fix k assume "k \<in> set [0..<queue_count g]"
    then have "k < (?h + 8 - ?t) mod 8" by (simp add: queue_count_def)
    from ring_before_head [OF h t this] have "?h \<noteq> (?t + k) mod 8" by simp
    then show "(event_queue g)[?h := e] ! ((?t + k) mod 8) = event_queue g ! ((?t + k) mod 8)"
      by (rule nth_list_update_neq)
  qed
  have new: "(event_queue g)[?h := e] ! ((?t + queue_count g) mod 8) = e"
    using ring_head [OF h t] h len by (simp add: queue_count_def)
  have "queued (snd (ble_enqueue_event e g)) =
      map (\<lambda>k. (event_queue g)[?h := e] ! ((?t + k) mod 8)) [0..<Suc (queue_count g)]"
    using cnt by (simp add: queued_def unf)
  then show "queued (snd (ble_enqueue_event e g)) = queued g @ [e]"
    using old new by simp
qed

lemma dequeue_step:
  assumes "ble_handle_ok g" and "evt_queue_tail g \<noteq> evt_queue_head g"
  shows "ble_dequeue_event evt g =
           (True, event_queue g ! unat (evt_queue_tail g),
            g\<lparr>evt_queue_tail := next_index (evt_queue_tail g)\<rparr>)"
    and "ble_handle_ok (g\<lparr>evt_queue_tail := next_index (evt_queue_tail g)\<rparr>)"
    and "queue_count g = Suc (queue_count (g\<lparr>evt_queue_tail := next_index (evt_queue_tail g)\<rparr>))"
    and "queued g = event_queue g ! unat (evt_queue_tail g)
                    # queued (g\<lparr>evt_queue_tail := next_index (evt_queue_tail g)\<rparr>)"
proof -
  let ?h = "unat (evt_queue_head g)" and ?t = "unat (evt_queue_tail g)"
  let ?g1 = "g\<lparr>evt_queue_tail := next_index (evt_queue_tail g)\<rparr>"
  from assms(1) have h: "?h < 8" and t: "?t < 8"
    by (simp_all add: ble_handle_ok_def)
  from assms(2) have ne: "?t \<noteq> ?h" by (simp add: word_unat_eq_iff)
  show "ble_dequeue_event evt g = (True, event_queue g ! ?t, ?g1)"
    using assms(2) by (simp add: ble_dequeue_event_def Let_def)
  show "ble_handle_ok ?g1"
    using assms(1) by (simp add: ble_handle_ok_def unat_next_index del: One_nat_def)
  show cnt: "queue_count g = Suc (queue_count ?g1)"
    using ring_count_dequeue [OF h t ne]
    by (simp add: queue_count_def unat_next_index del: One_nat_def)
  have "queued g = map (\<lambda>k. event_queue g ! ((?t + k) mod 8)) [0..<Suc (queue_count ?g1)]"
    by (simp add: queued_def cnt)
  also have "\<dots> = event_queue g ! ((?t + 0) mod 8)
      # map (\<lambda>k. event_queue g ! ((?t + Suc k) mod 8)) [0..<queue_count ?g1]"
    by (simp only: upt_conv_Cons [OF zero_less_Suc] list.map map_Suc_upt [symmetric] map_map
        comp_def)
  also have "\<dots> = event_queue g ! ?t # queued ?g1"
    using t by (simp add: queued_def unat_next_index ring_shift del: One_nat_def)
  finally show "queued g = event_queue g ! ?t # queued ?g1" .
qed

lemma enqueue_keeps:
  "ble_callback (snd (ble_enqueue_event e g)) = ble_callback g"
  "rx_pending (snd (ble_enqueue_event e g)) = rx_pending g"
  "rx_len (snd (ble_enqueue_event e g)) = rx_len g"
  "ble_rx_buffer (snd (ble_enqueue_event e g)) = ble_rx_buffer g"
  "peer_addr (snd (ble_enqueue_event e g)) = peer_addr g"
  "ble_state (snd (ble_enqueue_event e g)) = ble_state g"
  by (simp_all add: ble_enqueue_event_def Let_def)

lemma enqueue_all_queued:
  "ble_handle_ok g \<Longrightarrow> queue_count g + length es < 8 \<Longrightarrow>
     ble_handle_ok (enqueue_all es g) \<and> queued (enqueue_all es g) = queued g @ es"
proof (induction es arbitrary: g)
  case Nil
  then show ?case by simp
next
  case (Cons e es)
  from Cons.prems have lt: "queue_count g < 7" by simp
  note eo = enqueue_ok [OF Cons.prems(1) lt, of e]
  from Cons.prems eo(3) have "queue_count (snd (ble_enqueue_event e g)) + length es < 8"
    by simp
  from Cons.IH [OF eo(2) this] show ?case by (simp add: eo(4))
qed

lemma enqueue_all_keeps:
  "ble_callback (enqueue_all es g) = ble_callback g
   \<and> rx_pending (enqueue_all es g) = rx_pending g
   \<and> rx_len (enqueue_all es g) = rx_len g
   \<and> ble_rx_buffer (enqueue_all es g) = ble_rx_buffer g
   \<and> peer_addr (enqueue_all es g) = peer_addr g"
  by (induction es arbitrary: g) (simp_all add: enqueue_keeps)

lemma handle_init_ok: "ble_handle_ok g_ble_handle_init" "ble_handle_ok ble_handle_ready"
  "queue_count g_ble_handle_init = 0" "queue_count ble_handle_ready = 0"
  by (simp_all add: ble_handle_ok_def g_ble_handle_init_def ble_handle_ready_def queue_count_def)

lemma queue_count_queued: "length (queued g) = queue_count g"
  by (simp add: queued_def)

lemma enqueue_full:
  "next_index (evt_queue_head g) = evt_queue_tail g \<Longrightarrow>
     ble_enqueue_event e g = (STATUS_ERROR, g)"
  by (simp add: ble_enqueue_event_def)

lemma dequeue_empty:
  "evt_queue_tail g = evt_queue_head g \<Longrightarrow> ble_dequeue_event evt g = (False, evt, g)"
  by (simp add: ble_dequeue_event_def)

lemma queue_count_le: "queue_count g \<le> 7"
proof -
  have "queue_count g < 8" by (simp add: queue_count_def)
  then show ?thesis by simp
qed

lemma seven_queued:
  "ble_handle_ok (enqueue_all (replicate 7 event_A) ble_handle_ready)"
  "queue_count (enqueue_all (replicate 7 event_A) ble_handle_ready) = 7"
proof -
  have "queue_count ble_handle_ready + length (replicate 7 event_A) < 8"
    by (simp add: handle_init_ok)
  from enqueue_all_queued [OF handle_init_ok(2) this]
  show "ble_handle_ok (enqueue_all (replicate 7 event_A) ble_handle_ready)"
    and "queue_count (enqueue_all (replicate 7 event_A) ble_handle_ready) = 7"
    using queue_count_queued [of "enqueue_all (replicate 7 event_A) ble_handle_ready"]
      queue_count_queued [of ble_handle_ready]
    by (simp_all add: handle_init_ok)
qed

text \<open>
  Claim C4, as the code has it. The queue keeps one of its eight slots free, so it never
  holds more than 7 events and is full with 7. Enqueueing into a full queue returns
  \<open>STATUS_ERROR\<close> and leaves the whole handle (queue contents, head and tail) unchanged;
  below 7 the enqueue succeeds and appends the event behind the queued ones. Dequeuing from
  an empty queue (head = tail, which is exactly when no event is queued) returns "no
  event" and leaves the handle and the caller's event unchanged.
\<close>

theorem ble_queue_full_and_empty:
  assumes "ble_handle_ok g"
  shows "queue_count g \<le> 7
    \<and> (queue_count g = 7 \<longrightarrow> ble_enqueue_event e g = (STATUS_ERROR, g))
    \<and> (queue_count g < 7 \<longrightarrow> fst (ble_enqueue_event e g) = STATUS_OK
           \<and> queued (snd (ble_enqueue_event e g)) = queued g @ [e])
    \<and> (evt_queue_head g = evt_queue_tail g \<longrightarrow> ble_dequeue_event evt g = (False, evt, g))
    \<and> ((evt_queue_head g = evt_queue_tail g) = (queue_count g = 0))"
proof (intro conjI)
  show "queue_count g \<le> 7" by (rule queue_count_le)
  show "queue_count g = 7 \<longrightarrow> ble_enqueue_event e g = (STATUS_ERROR, g)"
    using full_iff [OF assms] by (simp add: enqueue_full)
  show "queue_count g < 7 \<longrightarrow> fst (ble_enqueue_event e g) = STATUS_OK
           \<and> queued (snd (ble_enqueue_event e g)) = queued g @ [e]"
    using enqueue_ok(1,4) [OF assms] by blast
  show "evt_queue_head g = evt_queue_tail g \<longrightarrow> ble_dequeue_event evt g = (False, evt, g)"
    by (simp add: dequeue_empty)
  show "(evt_queue_head g = evt_queue_tail g) = (queue_count g = 0)"
    by (rule queue_empty_iff [OF assms])
qed

theorem ble_queue_full_and_empty_witness:
  "ble_enqueue_event event_B (enqueue_all (replicate 7 event_A) ble_handle_ready)
     = (STATUS_ERROR, enqueue_all (replicate 7 event_A) ble_handle_ready)
   \<and> fst (ble_enqueue_event event_B ble_handle_ready) = STATUS_OK
   \<and> queued (snd (ble_enqueue_event event_B ble_handle_ready)) = [event_B]
   \<and> ble_dequeue_event event_C ble_handle_ready = (False, event_C, ble_handle_ready)"
proof -
  have "queued ble_handle_ready = []"
    using queue_count_queued [of ble_handle_ready] by (simp add: handle_init_ok)
  moreover have "evt_queue_head ble_handle_ready = evt_queue_tail ble_handle_ready"
    by (simp add: ble_handle_ready_def g_ble_handle_init_def)
  ultimately show ?thesis
    using ble_queue_full_and_empty [where e = event_B and evt = event_C, OF seven_queued(1)]
      ble_queue_full_and_empty [where e = event_B and evt = event_C, OF handle_init_ok(2)]
      seven_queued(2)
    by (simp add: handle_init_ok)
qed

text \<open>
  Claim C4 as stated speaks of a full queue with 8 events already queued. Seven enqueues
  into the empty queue succeed and leave 7 events queued; the eighth enqueue is the one
  that is refused, so 8 events are never queued.
\<close>

theorem queue_full_with_seven_events:
  "queue_count (enqueue_all (replicate 7 event_A) ble_handle_ready) = 7
   \<and> fst (ble_enqueue_event event_A (enqueue_all (replicate 7 event_A) ble_handle_ready))
       = STATUS_ERROR"
  using full_iff [OF seven_queued(1)] seven_queued(2)
  by (simp add: enqueue_full)

section \<open>BLE: delivery of staged data and queued events\<close>

lemma ble_drain_delivers:
  "ble_handle_ok g \<Longrightarrow> queue_count g = n \<Longrightarrow>
     \<exists>evt'. ble_drain evt g w =
       Some (evt', g\<lparr>evt_queue_tail := evt_queue_head g\<rparr>,
             foldl (\<lambda>w e. ble_invoke_callback (ble_callback g) e w) w (queued g))"
proof (induction n arbitrary: evt g w)
  case 0
  then have eq: "evt_queue_head g = evt_queue_tail g"
    by (simp add: queue_empty_iff)
  then have "ble_dequeue_event evt g = (False, evt, g)"
    by (simp add: ble_dequeue_event_def)
  moreover have "queued g = []" using 0 by (simp add: queued_def)
  moreover have "g\<lparr>evt_queue_tail := evt_queue_head g\<rparr> = g" using eq by simp
  ultimately show ?case
    by (subst ble_drain.simps) simp
next
  case (Suc n)
  let ?g1 = "g\<lparr>evt_queue_tail := next_index (evt_queue_tail g)\<rparr>"
  let ?e = "event_queue g ! unat (evt_queue_tail g)"
  from Suc.prems have ne: "evt_queue_tail g \<noteq> evt_queue_head g"
    using queue_empty_iff [of g] by auto
  note step = dequeue_step [OF Suc.prems(1) ne]
  from step(3) Suc.prems(2) have "queue_count ?g1 = n" by simp
  from Suc.IH [OF step(2) this, of ?e "ble_invoke_callback (ble_callback g) ?e w"]
  obtain evt' where
    "ble_drain ?e ?g1 (ble_invoke_callback (ble_callback g) ?e w) =
       Some (evt', g\<lparr>evt_queue_tail := evt_queue_head g\<rparr>,
             foldl (\<lambda>w e. ble_invoke_callback (ble_callback g) e w)
               (ble_invoke_callback (ble_callback g) ?e w) (queued ?g1))"
    by auto
  then show ?case
    by (subst ble_drain.simps) (simp add: step(1) [of evt] step(4))
qed

lemma deliver_trace:
  "cb \<noteq> 0 \<Longrightarrow> trace (foldl (\<lambda>w e. ble_invoke_callback cb e w) w es)
     = trace w @ map (BleCallback cb) es"
  by (induction es arbitrary: w) (simp_all add: ble_invoke_callback_def IS_VALID_PTR_def emit_def)

lemma staged_event_fields:
  "rx_len g' = rx_len g \<Longrightarrow> ble_rx_buffer g' = ble_rx_buffer g \<Longrightarrow> peer_addr g' = peer_addr g
     \<Longrightarrow> staged_event evt0 g' = staged_event evt0 g"
  by (simp add: staged_event_def)

lemma staged_event_pending [simp]:
  "staged_event evt0 (g\<lparr>rx_pending := b\<rparr>) = staged_event evt0 g"
  by (simp add: staged_event_def)

lemma queued_pending [simp]: "queued (g\<lparr>rx_pending := b\<rparr>) = queued g"
  by (simp add: queued_def queue_count_def)

lemma handle_ok_pending [simp]: "ble_handle_ok (g\<lparr>rx_pending := b\<rparr>) = ble_handle_ok g"
  by (simp add: ble_handle_ok_def)

lemma queued_drained [simp]: "queued (g\<lparr>evt_queue_tail := evt_queue_head g\<rparr>) = []"
  by (simp add: queued_def queue_count_def)

lemma ble_process_delivers:
  assumes "ble_handle_ok g"
  shows "ble_process evt0 g w =
     Some (g\<lparr>rx_pending := False, evt_queue_tail := evt_queue_head g\<rparr>,
           foldl (\<lambda>w e. ble_invoke_callback (ble_callback g) e w) w
             ((if rx_pending g then [staged_event evt0 g] else []) @ queued g))"
proof (cases "rx_pending g")
  case True
  let ?g1 = "g\<lparr>rx_pending := False\<rparr>"
  have ok1: "ble_handle_ok ?g1" using assms by simp
  from ble_drain_delivers [OF ok1 refl, of "staged_event evt0 g"
      "ble_invoke_callback (ble_callback g) (staged_event evt0 g) w"]
  obtain evt' where
    "ble_drain (staged_event evt0 g) ?g1
       (ble_invoke_callback (ble_callback g) (staged_event evt0 g) w) =
     Some (evt', ?g1\<lparr>evt_queue_tail := evt_queue_head ?g1\<rparr>,
           foldl (\<lambda>w e. ble_invoke_callback (ble_callback ?g1) e w)
             (ble_invoke_callback (ble_callback g) (staged_event evt0 g) w) (queued ?g1))"
    by blast
  then show ?thesis
    using True by (simp add: ble_process_def Let_def)
next
  case False
  from ble_drain_delivers [OF assms refl, of evt0 w]
  obtain evt' where
    "ble_drain evt0 g w =
     Some (evt', g\<lparr>evt_queue_tail := evt_queue_head g\<rparr>,
           foldl (\<lambda>w e. ble_invoke_callback (ble_callback g) e w) w (queued g))"
    by blast
  moreover have "g\<lparr>rx_pending := False\<rparr> = g" using False by simp
  ultimately show ?thesis
    using False by (simp add: ble_process_def Let_def)
qed



section \<open>BLE: staging received data\<close>

lemma rx_copy_loop_ok:
  "unat (rx_len g) \<le> length (ble_rx_buffer g) \<Longrightarrow>
     \<exists>buf w'. rx_copy_loop i g w = Some (g\<lparr>ble_rx_buffer := buf\<rparr>, w')
        \<and> length buf = length (ble_rx_buffer g)"
proof (induction i g w rule: rx_copy_loop.induct)
  case (1 i g w)
  show ?case
  proof (cases "i < unat (rx_len g)")
    case False
    have "g\<lparr>ble_rx_buffer := ble_rx_buffer g\<rparr> = g" by simp
    with False show ?thesis
      by (subst rx_copy_loop.simps) (auto intro: exI [of _ "ble_rx_buffer g"])
  next
    case True
    obtain d w1 where rd: "reg_read BLE_RX_DATA w = (d, w1)"
      by (cases "reg_read BLE_RX_DATA w")
    from True "1.prems" have inb: "i < length (ble_rx_buffer g)" by simp
    let ?g1 = "g\<lparr>ble_rx_buffer := (ble_rx_buffer g)[i := ucast (d AND 0xFF)]\<rparr>"
    from "1.prems" have "unat (rx_len ?g1) \<le> length (ble_rx_buffer ?g1)" by simp
    from "1.IH" [OF True refl rd [symmetric] inb this]
    obtain buf w' where a: "rx_copy_loop (Suc i) ?g1 w1 = Some (?g1\<lparr>ble_rx_buffer := buf\<rparr>, w')"
      and b: "length buf = length (ble_rx_buffer ?g1)"
      by blast
    have "rx_copy_loop i g w = Some (g\<lparr>ble_rx_buffer := buf\<rparr>, w')"
      using a True inb rd by (subst rx_copy_loop.simps) simp
    moreover have "length buf = length (ble_rx_buffer g)"
      using b by simp
    ultimately show ?thesis by blast
  qed
qed

lemma clamp_le: "unat (if v > 244 then 244 else (v :: u32_t)) \<le> 244"
  by (simp add: word_less_nat_alt not_less)

lemma unat_clamped:
  "unat (ucast (if v > of_nat BLE_MAX_PAYLOAD_SIZE then of_nat BLE_MAX_PAYLOAD_SIZE
                else (v :: u32_t)) :: u16_t) = min (unat v) 244"
proof (cases "v > 244")
  case True
  then have "244 < unat v" by (simp add: word_less_nat_alt)
  with True show ?thesis by (simp add: BLE_MAX_PAYLOAD_SIZE_def)
next
  case False
  then have le: "unat v \<le> 244" by (simp add: word_less_nat_alt not_less)
  then have "unat v < 2 ^ 16" by simp
  then have "unat (ucast v :: u16_t) = unat v"
    by (simp add: unsigned_ucast_eq take_bit_nat_eq_self)
  with False le show ?thesis by (simp add: BLE_MAX_PAYLOAD_SIZE_def)
qed

lemma ble_read_rx_data_ok:
  assumes "length (ble_rx_buffer g) = BLE_MAX_PAYLOAD_SIZE"
  shows "\<exists>buf w'. ble_read_rx_data g w =
           Some (g\<lparr>rx_len := ucast (if fst (reg_read BLE_RX_LEN w) > of_nat BLE_MAX_PAYLOAD_SIZE
                                     then of_nat BLE_MAX_PAYLOAD_SIZE
                                     else fst (reg_read BLE_RX_LEN w)),
                    ble_rx_buffer := buf, rx_pending := True\<rparr>, w')
         \<and> length buf = BLE_MAX_PAYLOAD_SIZE"
proof -
  obtain v w1 where rd: "reg_read BLE_RX_LEN w = (v, w1)"
    by (cases "reg_read BLE_RX_LEN w")
  define l :: u16_t where
    "l = ucast (if v > of_nat BLE_MAX_PAYLOAD_SIZE then of_nat BLE_MAX_PAYLOAD_SIZE else v)"
  have "unat l \<le> 244" using unat_clamped [of v] by (simp add: l_def)
  then have "unat (rx_len (g\<lparr>rx_len := l\<rparr>)) \<le> length (ble_rx_buffer (g\<lparr>rx_len := l\<rparr>))"
    using assms by (simp add: BLE_MAX_PAYLOAD_SIZE_def)
  from rx_copy_loop_ok [OF this, of 0 w1]
  obtain buf w' where
    cp: "rx_copy_loop 0 (g\<lparr>rx_len := l\<rparr>) w1 = Some (g\<lparr>rx_len := l, ble_rx_buffer := buf\<rparr>, w')"
    and len: "length buf = BLE_MAX_PAYLOAD_SIZE"
    using assms by auto
  have "ble_read_rx_data g w = Some (g\<lparr>rx_len := l, ble_rx_buffer := buf, rx_pending := True\<rparr>, w')"
    unfolding ble_read_rx_data_def rd by (simp only: case_prod_conv Let_def l_def [symmetric] cp option.case)
  with len show ?thesis
    unfolding rd fst_conv l_def [symmetric] by blast
qed

lemma ble_world_reads:
  "device (ble_world flags len) BLE_INT_FLAG n = flags"
  "device (ble_world flags len) BLE_RX_LEN n = len"
  by (simp_all add: ble_world_def BLE_INT_FLAG_def BLE_RX_LEN_def)

text \<open>
  Claim C8. With the staging buffer at its declared size of 244 bytes, \<open>ble_read_rx_data\<close>
  always completes without a store outside the buffer, whatever length the RX\_LEN register
  reports: the stored \<open>rx_len\<close> is the minimum of the reported length and 244, so it never
  exceeds 244, and exactly the indices below \<open>rx_len\<close> are written.
\<close>

theorem ble_rx_len_clamped:
  assumes "length (ble_rx_buffer g) = BLE_MAX_PAYLOAD_SIZE"
  shows "\<exists>g' w'. ble_read_rx_data g w = Some (g', w')
     \<and> unat (rx_len g') = min (unat (fst (reg_read BLE_RX_LEN w))) 244
     \<and> unat (rx_len g') \<le> BLE_MAX_PAYLOAD_SIZE
     \<and> length (ble_rx_buffer g') = BLE_MAX_PAYLOAD_SIZE
     \<and> rx_pending g'"
proof -
  from ble_read_rx_data_ok [OF assms, of w]
  obtain buf w' where
    "ble_read_rx_data g w =
       Some (g\<lparr>rx_len := ucast (if fst (reg_read BLE_RX_LEN w) > of_nat BLE_MAX_PAYLOAD_SIZE
                                 then of_nat BLE_MAX_PAYLOAD_SIZE
                                 else fst (reg_read BLE_RX_LEN w)),
                ble_rx_buffer := buf, rx_pending := True\<rparr>, w')"
    and "length buf = BLE_MAX_PAYLOAD_SIZE"
    by blast
  then show ?thesis
    using unat_clamped [of "fst (reg_read BLE_RX_LEN w)"]
    by (simp add: BLE_MAX_PAYLOAD_SIZE_def)
qed

theorem ble_rx_len_clamped_witness:
  "\<exists>g' w'. ble_read_rx_data g_ble_handle_init (ble_world 4 1000) = Some (g', w')
     \<and> unat (rx_len g') = 244
     \<and> length (ble_rx_buffer g') = 244"
proof -
  have len: "length (ble_rx_buffer g_ble_handle_init) = BLE_MAX_PAYLOAD_SIZE"
    by (simp add: g_ble_handle_init_def)
  show ?thesis
    using ble_rx_len_clamped [OF len, of "ble_world 4 1000"]
    by (auto simp add: ble_world_reads BLE_MAX_PAYLOAD_SIZE_def)
qed

section \<open>BLE: link-state transitions in the interrupt entry point\<close>

lemma irq_connected_state:
  "ble_state (fst (snd (irq_connected f s))) =
     (if BIT_CHECK f BLE_INT_CONNECTED then BLE_STATE_CONNECTED else ble_state (fst (snd s)))"
  "ble_rx_buffer (fst (snd (irq_connected f s))) = ble_rx_buffer (fst (snd s))"
  by (cases s; simp add: irq_connected_def Let_def enqueue_keeps)+

lemma irq_disconnected_state:
  "ble_state (fst (snd (irq_disconnected f s))) =
     (if BIT_CHECK f BLE_INT_DISCONNECTED then BLE_STATE_IDLE else ble_state (fst (snd s)))"
  "ble_rx_buffer (fst (snd (irq_disconnected f s))) = ble_rx_buffer (fst (snd s))"
  by (cases s; simp add: irq_disconnected_def Let_def enqueue_keeps)+

lemma irq_tx_done_state:
  "ble_state (fst (snd (irq_tx_done f s))) = ble_state (fst (snd s))"
  by (cases s) (simp add: irq_tx_done_def Let_def enqueue_keeps)

lemma irq_error_state:
  "ble_state (fst (snd (irq_error f s))) =
     (if BIT_CHECK f BLE_INT_ERROR then BLE_STATE_ERROR else ble_state (fst (snd s)))"
  by (cases s) (simp add: irq_error_def Let_def enqueue_keeps)

lemma irq_rx_done_ok:
  assumes "length (ble_rx_buffer (fst (snd s))) = BLE_MAX_PAYLOAD_SIZE"
  shows "\<exists>s3. irq_rx_done f s = Some s3 \<and> ble_state (fst (snd s3)) = ble_state (fst (snd s))"
proof (cases s)
  case (fields evt g w)
  with assms have len: "length (ble_rx_buffer g) = BLE_MAX_PAYLOAD_SIZE" by simp
  show ?thesis
  proof (cases "BIT_CHECK f BLE_INT_RX_DONE")
    case False
    then show ?thesis by (simp add: fields irq_rx_done_def)
  next
    case True
    from ble_read_rx_data_ok [OF len, of "reg_write BLE_INT_FLAG (push_bit BLE_INT_RX_DONE 1) w"]
    obtain g1 w2 where
      "ble_read_rx_data g (reg_write BLE_INT_FLAG (push_bit BLE_INT_RX_DONE 1) w) = Some (g1, w2)"
      and "ble_state g1 = ble_state g"
      by auto
    with True show ?thesis by (simp add: fields irq_rx_done_def Let_def)
  qed
qed

lemma int_flag_bits:
  "BIT_CHECK 1 BLE_INT_CONNECTED" "\<not> BIT_CHECK 1 BLE_INT_DISCONNECTED" "\<not> BIT_CHECK 1 BLE_INT_ERROR"
  "BIT_CHECK 2 BLE_INT_DISCONNECTED" "\<not> BIT_CHECK 2 BLE_INT_ERROR"
  by (simp_all add: BIT_CHECK_def BLE_INT_CONNECTED_def BLE_INT_DISCONNECTED_def BLE_INT_ERROR_def)

text \<open>
  Claim C9. \<open>ble_irq_handler\<close> never looks at the current link state. The block for the
  connected flag sets the state to Connected and the block for the disconnected flag sets
  it to Idle, from any prior state; and the state the handler returns with is decided by
  the flags alone: Error if the error flag was set, otherwise Idle if the disconnected flag
  was set, otherwise Connected if the connected flag was set, otherwise the prior state.
\<close>

theorem ble_irq_state_unconditional:
  assumes "length (ble_rx_buffer g) = BLE_MAX_PAYLOAD_SIZE"
  shows "(\<exists>g' w'. ble_irq_handler g w = Some (g', w') \<and>
            ble_state g' =
              (if BIT_CHECK (fst (reg_read BLE_INT_FLAG w)) BLE_INT_ERROR then BLE_STATE_ERROR
               else if BIT_CHECK (fst (reg_read BLE_INT_FLAG w)) BLE_INT_DISCONNECTED
                    then BLE_STATE_IDLE
               else if BIT_CHECK (fst (reg_read BLE_INT_FLAG w)) BLE_INT_CONNECTED
                    then BLE_STATE_CONNECTED
               else ble_state g))
       \<and> (BIT_CHECK f BLE_INT_CONNECTED \<longrightarrow>
            ble_state (fst (snd (irq_connected f (evt, g, w)))) = BLE_STATE_CONNECTED)
       \<and> (BIT_CHECK f BLE_INT_DISCONNECTED \<longrightarrow>
            ble_state (fst (snd (irq_disconnected f (evt, g, w)))) = BLE_STATE_IDLE)"
proof (intro conjI)
  obtain fl w1 where rd: "reg_read BLE_INT_FLAG w = (fl, w1)"
    by (cases "reg_read BLE_INT_FLAG w")
  define s2 where "s2 = irq_disconnected fl (irq_connected fl (irq_evt_init, g, w1))"
  have len2: "length (ble_rx_buffer (fst (snd s2))) = BLE_MAX_PAYLOAD_SIZE"
    using assms by (simp add: s2_def irq_connected_state irq_disconnected_state)
  from irq_rx_done_ok [OF len2, of fl]
  obtain s3 where s3: "irq_rx_done fl s2 = Some s3"
    and st3: "ble_state (fst (snd s3)) = ble_state (fst (snd s2))"
    by blast
  define s5 where "s5 = irq_error fl (irq_tx_done fl s3)"
  have unf: "ble_irq_handler g w = Some (fst (snd s5), snd (snd s5))"
    by (simp add: ble_irq_handler_def rd Let_def s2_def [symmetric] s3 s5_def split_def)
  have "ble_state (fst (snd s5)) =
      (if BIT_CHECK fl BLE_INT_ERROR then BLE_STATE_ERROR
       else if BIT_CHECK fl BLE_INT_DISCONNECTED then BLE_STATE_IDLE
       else if BIT_CHECK fl BLE_INT_CONNECTED then BLE_STATE_CONNECTED
       else ble_state g)"
    by (simp add: s5_def irq_error_state irq_tx_done_state st3 s2_def irq_disconnected_state
        irq_connected_state)
  with unf show "\<exists>g' w'. ble_irq_handler g w = Some (g', w') \<and>
            ble_state g' =
              (if BIT_CHECK (fst (reg_read BLE_INT_FLAG w)) BLE_INT_ERROR then BLE_STATE_ERROR
               else if BIT_CHECK (fst (reg_read BLE_INT_FLAG w)) BLE_INT_DISCONNECTED
                    then BLE_STATE_IDLE
               else if BIT_CHECK (fst (reg_read BLE_INT_FLAG w)) BLE_INT_CONNECTED
                    then BLE_STATE_CONNECTED
               else ble_state g)"
    unfolding rd fst_conv by blast
next
  show "BIT_CHECK f BLE_INT_CONNECTED \<longrightarrow>
            ble_state (fst (snd (irq_connected f (evt, g, w)))) = BLE_STATE_CONNECTED"
    by (simp add: irq_connected_state)
next
  show "BIT_CHECK f BLE_INT_DISCONNECTED \<longrightarrow>
            ble_state (fst (snd (irq_disconnected f (evt, g, w)))) = BLE_STATE_IDLE"
    by (simp add: irq_disconnected_state)
qed

theorem ble_irq_state_unconditional_witness:
  "ble_state g_ble_handle_init = BLE_STATE_OFF
   \<and> (\<exists>g' w'. ble_irq_handler g_ble_handle_init (ble_world 1 0) = Some (g', w')
        \<and> ble_state g' = BLE_STATE_CONNECTED)
   \<and> (\<exists>g' w'. ble_irq_handler (g_ble_handle_init\<lparr>ble_state := BLE_STATE_ADVERTISING\<rparr>)
                  (ble_world 2 0) = Some (g', w')
        \<and> ble_state g' = BLE_STATE_IDLE)"
proof -
  have len: "length (ble_rx_buffer g_ble_handle_init) = BLE_MAX_PAYLOAD_SIZE"
    "length (ble_rx_buffer (g_ble_handle_init\<lparr>ble_state := BLE_STATE_ADVERTISING\<rparr>))
       = BLE_MAX_PAYLOAD_SIZE"
    by (simp_all add: g_ble_handle_init_def)
  show ?thesis
    using ble_irq_state_unconditional [OF len(1), of "ble_world 1 0" 1 irq_evt_init]
      ble_irq_state_unconditional [OF len(2), of "ble_world 2 0" 2 irq_evt_init]
    by (simp add: ble_world_reads int_flag_bits) (simp add: g_ble_handle_init_def)
qed

end
